theory Spec2Isabelle
  imports Main
begin

section \<open>Strings as the program sees them\<close>

text \<open>
  A Python \<open>str\<close> is modelled as a \<open>string\<close>: a list of characters, each a code
  point below 256 (ASCII and the Latin-1 supplement). The library operations of
  \<open>str\<close> that the program calls are written out on that range.
\<close>

text \<open>\<open>str.lower()\<close> on one code point: \<open>A\<close>..\<open>Z\<close> and the Latin-1 capitals
  (\<open>0xC0\<close>..\<open>0xDE\<close> without the multiplication sign \<open>0xD7\<close>) move up by 32.\<close>

definition lower_char :: "char \<Rightarrow> char" where
  "lower_char c =
     (let n = (of_char c :: nat) in
      if (65 \<le> n \<and> n \<le> 90) \<or> (192 \<le> n \<and> n \<le> 222 \<and> n \<noteq> 215)
      then char_of (n + 32) else c)"

definition lower :: "string \<Rightarrow> string" where
  "lower s = map lower_char s"

text \<open>The character class \<open>[a-z]\<close> of the regular expression.\<close>

definition in_a_z :: "char \<Rightarrow> bool" where
  "in_a_z c = (97 \<le> (of_char c :: nat) \<and> (of_char c :: nat) \<le> 122)"

text \<open>\<open>re.sub(r'[^a-z]', '', s)\<close>: every character outside the class is deleted.\<close>

definition re_sub_non_a_z :: "string \<Rightarrow> string" where
  "re_sub_non_a_z s = filter in_a_z s"

text \<open>
  \<^verbatim>\<open>
  def normalize_champion_name(name: str) -> str:
      clean = name.lower()
      clean = re.sub(r'[^a-z]', '', clean)
      return clean
  \<close>
\<close>

definition normalize_champion_name :: "string \<Rightarrow> string" where
  "normalize_champion_name nm = (let clean = lower nm; clean = re_sub_non_a_z clean in clean)"

text \<open>\<open>sub in s\<close> on strings: \<open>sub\<close> occurs in \<open>s\<close> as a contiguous run.\<close>

fun startswith :: "string \<Rightarrow> string \<Rightarrow> bool" where
  "startswith s [] = True"
| "startswith [] (p # ps) = False"
| "startswith (c # cs) (p # ps) = (c = p \<and> startswith cs ps)"

fun py_in :: "string \<Rightarrow> string \<Rightarrow> bool" where
  "py_in sub [] = (sub = [])"
| "py_in sub (c # cs) = (startswith (c # cs) sub \<or> py_in sub cs)"

text \<open>\<open>str.isspace()\<close> on one code point below 256: tab, line feed, vertical tab,
  form feed, carriage return, the four separators \<open>0x1C\<close>..\<open>0x1F\<close>, space,
  next line \<open>0x85\<close> and no-break space \<open>0xA0\<close>.\<close>

definition isspace :: "char \<Rightarrow> bool" where
  "isspace c =
     (let n = (of_char c :: nat) in
      (9 \<le> n \<and> n \<le> 13) \<or> (28 \<le> n \<and> n \<le> 32) \<or> n = 133 \<or> n = 160)"

definition strip :: "string \<Rightarrow> string" where
  "strip s = rev (dropWhile isspace (rev (dropWhile isspace s)))"

subsection \<open>Exceptions\<close>

text \<open>
  The exceptions the program can meet, by the \<open>except\<close> clause that tells them apart:
  \<open>ValueError\<close> (caught around \<open>int\<close>), \<open>requests.RequestException\<close> (caught by the
  page fetcher; \<open>HTTPError\<close>, timeouts and connection errors are subclasses), and any
  other subclass of \<open>Exception\<close>. A function that can raise returns \<open>exn + 'a\<close>, with
  \<open>Inl\<close> for the raised exception.
\<close>

datatype exn = ValueError | RequestException | OtherException

subsection \<open>\<open>int(text)\<close>\<close>

text \<open>
  \<open>int\<close> on a \<open>str\<close>, base 10. Whitespace around the text is dropped; here \<open>int\<close> is
  narrower than \<open>str.strip\<close>: of the code points below 256 it drops tab, line feed,
  vertical tab, form feed, carriage return, space, next line \<open>0x85\<close> and no-break space
  \<open>0xA0\<close>, and not the separators \<open>0x1C\<close>..\<open>0x1F\<close>. One sign is allowed, then decimal
  digits, where a single underscore may stand between two digits. The digits are
  counted (leading zeros too, underscores and the sign not), and a text with more than
  \<open>max_str_digits\<close> digits is refused: 4300 is \<open>sys.int_info.default_max_str_digits\<close>,
  the bound of an interpreter started with its default settings. Every refusal raises
  \<open>ValueError\<close>. The result is an unbounded integer.
\<close>

definition int_isspace :: "char \<Rightarrow> bool" where
  "int_isspace c =
     (let n = (of_char c :: nat) in (9 \<le> n \<and> n \<le> 13) \<or> n = 32 \<or> n = 133 \<or> n = 160)"

definition int_strip :: "string \<Rightarrow> string" where
  "int_strip s = rev (dropWhile int_isspace (rev (dropWhile int_isspace s)))"

definition isdigit :: "char \<Rightarrow> bool" where
  "isdigit c = (48 \<le> (of_char c :: nat) \<and> (of_char c :: nat) \<le> 57)"

definition digit_value :: "char \<Rightarrow> nat" where
  "digit_value c = of_char c - 48"

definition max_str_digits :: nat where
  "max_str_digits = 4300"

text \<open>\<open>digits_loop acc prev cs\<close>: \<open>acc\<close> is the value read so far, \<open>prev\<close> says that
  the previous character was a digit.\<close>

fun digits_loop :: "nat \<Rightarrow> bool \<Rightarrow> string \<Rightarrow> nat option" where
  "digits_loop acc prev [] = (if prev then Some acc else None)"
| "digits_loop acc prev (c # cs) =
     (if isdigit c then digits_loop (10 * acc + digit_value c) True cs
      else if c = CHR ''_'' \<and> prev then digits_loop acc False cs
      else None)"

text \<open>The digits after the sign: their value, unless they are malformed or too many.\<close>

definition parse_digits :: "string \<Rightarrow> nat option" where
  "parse_digits body =
     (case digits_loop 0 False body of
        None \<Rightarrow> None
      | Some n \<Rightarrow> if max_str_digits < length (filter isdigit body) then None else Some n)"

definition py_int :: "string \<Rightarrow> exn + int" where
  "py_int s =
     (case int_strip s of
        [] \<Rightarrow> Inl ValueError
      | c # cs \<Rightarrow>
          if c = CHR ''-'' then
            (case parse_digits cs of None \<Rightarrow> Inl ValueError | Some n \<Rightarrow> Inr (- int n))
          else if c = CHR ''+'' then
            (case parse_digits cs of None \<Rightarrow> Inl ValueError | Some n \<Rightarrow> Inr (int n))
          else
            (case parse_digits (c # cs) of None \<Rightarrow> Inl ValueError | Some n \<Rightarrow> Inr (int n)))"

text \<open>\<open>str(n)\<close> for a natural number: its decimal numeral. Only used to state what
  \<open>int\<close> returns on a numeral.\<close>

fun decimal :: "nat \<Rightarrow> string" where
  "decimal n = (if n < 10 then [char_of (48 + n)] else decimal (n div 10) @ [char_of (48 + n mod 10)])"

declare decimal.simps [simp del]

section \<open>The parsed document\<close>

text \<open>
  The tree that \<open>BeautifulSoup(text, "html.parser")\<close> hands to the program. A node is
  a tag (its name, its attributes as the dictionary \<open>attrs\<close>, the value of its
  multi-valued \<open>class\<close> attribute as the list of class names, and its children) or a
  \<open>NavigableString\<close>. Comments and the other string kinds that \<open>get_text\<close> leaves out
  match no query of the program and are not part of the tree. The dictionary is an
  association list read with \<open>map_of\<close>.

  The document itself (the \<open>BeautifulSoup\<close> object, whose name \<open>[document]\<close> matches no
  query) is the list of its top-level nodes.
\<close>

datatype node =
    Tag (tag_name: string) (attrs: "(string \<times> string) list") (classes: "string list")
        (contents: "node list")
  | NavigableString string

type_synonym soup = "node list"

text \<open>
  The program walks up as well as down (\<open>find_parent\<close>), so a tag in hand is the tag
  together with its ancestors, the nearest first: an \<open>element\<close>.
\<close>

type_synonym element = "node list \<times> node"

fun is_tag :: "node \<Rightarrow> bool" where
  "is_tag (Tag n a c ks) = True"
| "is_tag (NavigableString s) = False"

text \<open>All tags below a node, in document order, each with its ancestors.
  \<open>descendants anc n\<close> takes the ancestors \<open>anc\<close> of \<open>n\<close>.\<close>

fun descendants :: "node list \<Rightarrow> node \<Rightarrow> element list"
  and descendants_list :: "node list \<Rightarrow> node list \<Rightarrow> element list" where
  "descendants anc (NavigableString s) = []"
| "descendants anc (Tag n a c ks) = descendants_list (Tag n a c ks # anc) ks"
| "descendants_list anc [] = []"
| "descendants_list anc (k # ks) =
     (if is_tag k then [(anc, k)] else []) @ descendants anc k @ descendants_list anc ks"

text \<open>\<open>tag.find_all(...)\<close> and \<open>tag.find(...)\<close> with a test on tags; \<open>soup.find(...)\<close> on
  the whole document.\<close>

definition find_all :: "(node \<Rightarrow> bool) \<Rightarrow> element \<Rightarrow> element list" where
  "find_all P e = filter (\<lambda>d. P (snd d)) (descendants (fst e) (snd e))"

definition find_tag :: "(node \<Rightarrow> bool) \<Rightarrow> element \<Rightarrow> element option" where
  "find_tag P e = (case find_all P e of [] \<Rightarrow> None | d # ds \<Rightarrow> Some d)"

definition soup_find :: "(node \<Rightarrow> bool) \<Rightarrow> soup \<Rightarrow> element option" where
  "soup_find P sp = (case filter (\<lambda>d. P (snd d)) (descendants_list [] sp) of [] \<Rightarrow> None | d # ds \<Rightarrow> Some d)"

text \<open>\<open>tag.find_parent(...)\<close>: the nearest ancestor that passes the test.\<close>

fun find_parent_in :: "(node \<Rightarrow> bool) \<Rightarrow> node list \<Rightarrow> element option" where
  "find_parent_in P [] = None"
| "find_parent_in P (a # anc) = (if P a then Some (anc, a) else find_parent_in P anc)"

definition find_parent :: "(node \<Rightarrow> bool) \<Rightarrow> element \<Rightarrow> element option" where
  "find_parent P e = find_parent_in P (fst e)"

text \<open>The tests the program passes: a tag name (\<open>find("strong")\<close>), or a tag name with a
  class (\<open>find("div", class_="absolute")\<close>: one of the tag's classes is the given one).\<close>

definition named :: "string \<Rightarrow> node \<Rightarrow> bool" where
  "named nm t = (is_tag t \<and> tag_name t = nm)"

definition named_class :: "string \<Rightarrow> string \<Rightarrow> node \<Rightarrow> bool" where
  "named_class nm cl t = (is_tag t \<and> tag_name t = nm \<and> cl \<in> set (classes t))"

text \<open>\<open>tag.get(key)\<close> is \<open>map_of (attrs tag) key\<close>; \<open>tag.get(key, default)\<close>:\<close>

definition get_attr :: "node \<Rightarrow> string \<Rightarrow> string \<Rightarrow> string" where
  "get_attr t key dflt = (case map_of (attrs t) key of None \<Rightarrow> dflt | Some v \<Rightarrow> v)"

text \<open>The strings below a node, in document order; \<open>get_text()\<close> joins them,
  \<open>get_text(strip=True)\<close> strips each, drops the empty ones and joins the rest.\<close>

fun strings :: "node \<Rightarrow> string list"
  and strings_list :: "node list \<Rightarrow> string list" where
  "strings (NavigableString s) = [s]"
| "strings (Tag n a c ks) = strings_list ks"
| "strings_list [] = []"
| "strings_list (k # ks) = strings k @ strings_list ks"

definition get_text :: "node \<Rightarrow> string" where
  "get_text t = concat (strings t)"

definition get_text_strip :: "node \<Rightarrow> string" where
  "get_text_strip t = concat (filter (\<lambda>s. s \<noteq> []) (map strip (strings t)))"

definition soup_text :: "soup \<Rightarrow> string" where
  "soup_text sp = concat (strings_list sp)"

section \<open>Data model\<close>

type_synonym bytes = string

record GameItem =
  name :: string
  image_url :: string
  count :: int
  image_data :: "bytes option"

record BuildRow =
  items :: "GameItem list"
  win_rate :: string
  pick_rate :: string
  games :: string

section \<open>The scraper\<close>

subsection \<open>Item details\<close>

text \<open>
  \<^verbatim>\<open>
  def _extract_item_details(self, img_tag):
      name = img_tag.get('alt', 'Unknown Item')
      src = img_tag.get('src', '')
      count = 1
      parent_div = img_tag.find_parent("div", class_="relative")
      if parent_div:
          count_div = parent_div.find("div", class_="absolute")
          if count_div:
              try:
                  count = int(count_div.get_text(strip=True))
              except ValueError:
                  count = 1
      return GameItem(name=name, image_url=src, count=count)
  \<close>
  A tag is always truthy, so \<open>if parent_div\<close> asks whether one was found. The
  \<open>except\<close> clause catches \<open>ValueError\<close> only: any other exception leaves the function.
\<close>

definition extract_count :: "element \<Rightarrow> exn + int" where
  "extract_count img_tag =
     (case find_parent (named_class ''div'' ''relative'') img_tag of
        None \<Rightarrow> Inr 1
      | Some parent_div \<Rightarrow>
          (case find_tag (named_class ''div'' ''absolute'') parent_div of
             None \<Rightarrow> Inr 1
           | Some count_div \<Rightarrow>
               (case py_int (get_text_strip (snd count_div)) of
                  Inr n \<Rightarrow> Inr n
                | Inl ValueError \<Rightarrow> Inr 1
                | Inl e \<Rightarrow> Inl e)))"

definition extract_item_details :: "element \<Rightarrow> exn + GameItem" where
  "extract_item_details img_tag =
     (let nm = get_attr (snd img_tag) ''alt'' ''Unknown Item'';
          src = get_attr (snd img_tag) ''src'' []
      in case extract_count img_tag of
           Inl e \<Rightarrow> Inl e
         | Inr cnt \<Rightarrow> Inr \<lparr>name = nm, image_url = src, count = cnt, image_data = None\<rparr>)"

subsection \<open>Table extraction\<close>

text \<open>A list comprehension over a function that may raise: the first exception ends it.\<close>

fun map_exn :: "('a \<Rightarrow> exn + 'b) \<Rightarrow> 'a list \<Rightarrow> exn + 'b list" where
  "map_exn f [] = Inr []"
| "map_exn f (x # xs) =
     (case f x of
        Inl e \<Rightarrow> Inl e
      | Inr y \<Rightarrow> (case map_exn f xs of Inl e \<Rightarrow> Inl e | Inr ys \<Rightarrow> Inr (y # ys)))"

text \<open>\<open>img.get('src')\<close> as a condition: the attribute is there and not empty.\<close>

definition has_src :: "element \<Rightarrow> bool" where
  "has_src img = (case map_of (attrs (snd img)) ''src'' of None \<Rightarrow> False | Some v \<Rightarrow> v \<noteq> [])"

text \<open>\<open>x.find(nm).get_text(strip=True) if x.find(nm) else "N/A"\<close>\<close>

definition text_or_na :: "string \<Rightarrow> element \<Rightarrow> string" where
  "text_or_na nm x =
     (case find_tag (named nm) x of Some t \<Rightarrow> get_text_strip (snd t) | None \<Rightarrow> ''N/A'')"

text \<open>
  The body of the loop over the rows: \<open>Inr None\<close> is \<open>continue\<close>, \<open>Inr (Some b)\<close> is the
  row that \<open>data.append\<close> receives.
  \<^verbatim>\<open>
  cols = row.find_all("td")
  if not cols or len(cols) < 3:
      continue
  item_container = cols[0]
  images = item_container.find_all("img")
  items_list = [self._extract_item_details(img) for img in images if img.get('src')]
  stats_div = cols[1]
  pick_rate = stats_div.find("strong").get_text(strip=True) if stats_div.find("strong") else "N/A"
  games = stats_div.find("span").get_text(strip=True) if stats_div.find("span") else "N/A"
  win_rate_div = cols[2]
  win_rate = win_rate_div.find("strong").get_text(strip=True) if win_rate_div.find("strong") else "N/A"
  data.append(BuildRow(items=items_list, win_rate=win_rate, pick_rate=pick_rate, games=games))
  \<close>
\<close>

definition row_body :: "element \<Rightarrow> exn + BuildRow option" where
  "row_body row =
     (let cols = find_all (named ''td'') row in
      if cols = [] \<or> length cols < 3 then Inr None
      else
        let item_container = cols ! 0;
            images = find_all (named ''img'') item_container
        in case map_exn extract_item_details (filter has_src images) of
             Inl e \<Rightarrow> Inl e
           | Inr items_list \<Rightarrow>
               let stats_div = cols ! 1;
                   pick = text_or_na ''strong'' stats_div;
                   gms = text_or_na ''span'' stats_div;
                   win_rate_div = cols ! 2;
                   win = text_or_na ''strong'' win_rate_div
               in Inr (Some \<lparr>items = items_list, win_rate = win, pick_rate = pick, games = gms\<rparr>))"

fun rows_loop :: "element list \<Rightarrow> BuildRow list \<Rightarrow> exn + BuildRow list" where
  "rows_loop [] data = Inr data"
| "rows_loop (row # rows) data =
     (case row_body row of
        Inl e \<Rightarrow> Inl e
      | Inr None \<Rightarrow> rows_loop rows data
      | Inr (Some b) \<Rightarrow> rows_loop rows (data @ [b]))"

text \<open>The test of \<open>soup.find(lambda tag: tag.name == "th" and
  header_text.lower() in tag.get_text().lower())\<close>.\<close>

definition header_matches :: "string \<Rightarrow> node \<Rightarrow> bool" where
  "header_matches header_text tag =
     (named ''th'' tag \<and> py_in (lower header_text) (lower (get_text tag)))"

text \<open>
  \<^verbatim>\<open>
  def _extract_table_by_header(self, soup, header_text):
      data = []
      header = soup.find(lambda tag: ...)
      if not header:
          return []
      table = header.find_parent("table")
      if not table: return []
      tbody = table.find("tbody")
      if not tbody: return []
      rows = tbody.find_all("tr")
      for row in rows:
          ...
      return data
  \<close>
\<close>

definition extract_table_by_header :: "soup \<Rightarrow> string \<Rightarrow> exn + BuildRow list" where
  "extract_table_by_header sp header_text =
     (case soup_find (header_matches header_text) sp of
        None \<Rightarrow> Inr []
      | Some header \<Rightarrow>
          (case find_parent (named ''table'') header of
             None \<Rightarrow> Inr []
           | Some table \<Rightarrow>
               (case find_tag (named ''tbody'') table of
                  None \<Rightarrow> Inr []
                | Some tbody \<Rightarrow> rows_loop (find_all (named ''tr'') tbody) [])))"

subsection \<open>The network\<close>

text \<open>
  \<open>self.session.get(url, timeout=t)\<close> is the program's only contact with the network.
  Its answer is not the program's to decide, and two requests for one URL may be
  answered differently, so the session is a function of a state of the outside world
  \<open>'w\<close>: it takes the state, the URL and the timeout, and gives the outcome (an
  exception raised by the library, or a response) and the next state. Of a response the
  program reads the status code, the body as the document that \<open>html.parser\<close> builds from
  \<open>response.text\<close>, and the body as bytes.
\<close>

record response =
  status_code :: int
  text_soup :: soup
  content :: bytes

type_synonym 'w session = "'w \<Rightarrow> string \<Rightarrow> nat \<Rightarrow> (exn + response) \<times> 'w"

text \<open>\<open>response.raise_for_status()\<close> raises \<open>HTTPError\<close>, a \<open>RequestException\<close>, on a
  status from 400 to 599.\<close>

definition raise_for_status :: "response \<Rightarrow> exn + unit" where
  "raise_for_status r =
     (if 400 \<le> status_code r \<and> status_code r < 600 then Inl RequestException else Inr ())"

text \<open>
  \<^verbatim>\<open>
  def fetch_page(self, url):
      try:
          response = self.session.get(url, timeout=10)
          if response.status_code == 404:
              return None
          response.raise_for_status()
          return BeautifulSoup(response.text, "html.parser")
      except requests.RequestException as e:
          logger.error(...)
          return None
  \<close>
  The body of the \<open>try\<close> is \<open>fetch_page_try\<close>; the \<open>except\<close> clause turns a
  \<open>RequestException\<close> into \<open>None\<close> and lets any other exception through.
\<close>

definition fetch_page_try :: "'w session \<Rightarrow> 'w \<Rightarrow> string \<Rightarrow> (exn + soup option) \<times> 'w" where
  "fetch_page_try get w url =
     (case get w url 10 of
        (Inl e, w') \<Rightarrow> (Inl e, w')
      | (Inr resp, w') \<Rightarrow>
          if status_code resp = 404 then (Inr None, w')
          else (case raise_for_status resp of
                  Inl e \<Rightarrow> (Inl e, w')
                | Inr u \<Rightarrow> (Inr (Some (text_soup resp)), w')))"

definition fetch_page :: "'w session \<Rightarrow> 'w \<Rightarrow> string \<Rightarrow> (exn + soup option) \<times> 'w" where
  "fetch_page get w url =
     (case fetch_page_try get w url of
        (Inl RequestException, w') \<Rightarrow> (Inr None, w')
      | (r, w') \<Rightarrow> (r, w'))"

text \<open>
  \<^verbatim>\<open>
  def fetch_image_bytes(self, url):
      try:
          if url.startswith("//"):
              url = "https:" + url
          resp = self.session.get(url, timeout=5)
          if resp.status_code == 200:
              return resp.content
      except Exception as e:
          logger.warning(...)
      return None
  \<close>
  \<open>except Exception\<close> catches every exception of the model, so the function returns a
  value in every case.
\<close>

definition fetch_image_bytes :: "'w session \<Rightarrow> 'w \<Rightarrow> string \<Rightarrow> bytes option \<times> 'w" where
  "fetch_image_bytes get w url =
     (let url = (if startswith url ''//'' then ''https:'' @ url else url) in
      case get w url 5 of
        (Inl e, w') \<Rightarrow> (None, w')
      | (Inr resp, w') \<Rightarrow> (if status_code resp = 200 then Some (content resp) else None, w'))"

subsection \<open>Aggregation\<close>

text \<open>
  \<^verbatim>\<open>
  all_rows = [row for cat in results.values() for row in cat]
  for row in all_rows:
      for item in row.items:
          if item.image_url:
              item.image_data = self.fetch_image_bytes(item.image_url)
  \<close>
  The loops assign to the items in place, category by category, row by row, item by
  item; every item is an object of its own, made by one call of the constructor. The
  model rebuilds the dictionary (an association list in insertion order) with the
  updated items and threads the state of the network through.
\<close>

fun prefetch_items :: "'w session \<Rightarrow> 'w \<Rightarrow> GameItem list \<Rightarrow> GameItem list \<times> 'w" where
  "prefetch_items get w [] = ([], w)"
| "prefetch_items get w (item # rest) =
     (let (item', w1) =
            (if image_url item \<noteq> [] then
               (let (d, w1) = fetch_image_bytes get w (image_url item)
                in (item\<lparr>image_data := d\<rparr>, w1))
             else (item, w));
          (rest', w2) = prefetch_items get w1 rest
      in (item' # rest', w2))"

fun prefetch_rows :: "'w session \<Rightarrow> 'w \<Rightarrow> BuildRow list \<Rightarrow> BuildRow list \<times> 'w" where
  "prefetch_rows get w [] = ([], w)"
| "prefetch_rows get w (row # rest) =
     (let (its, w1) = prefetch_items get w (items row);
          (rest', w2) = prefetch_rows get w1 rest
      in (row\<lparr>items := its\<rparr> # rest', w2))"

type_synonym results = "(string \<times> BuildRow list) list"

fun prefetch_results :: "'w session \<Rightarrow> 'w \<Rightarrow> results \<Rightarrow> results \<times> 'w" where
  "prefetch_results get w [] = ([], w)"
| "prefetch_results get w ((cat, rows) # rest) =
     (let (rows', w1) = prefetch_rows get w rows;
          (rest', w2) = prefetch_results get w1 rest
      in ((cat, rows') # rest', w2))"

text \<open>
  \<^verbatim>\<open>
  def get_all_data(self, soup):
      results = {
          "Core Builds": self._extract_table_by_header(soup, "Core Builds"),
          "Starter Items": self._extract_table_by_header(soup, "Starter Items"),
          "Boots": self._extract_table_by_header(soup, "Boots"),
          "Skills": self._extract_table_by_header(soup, "Skill"),
      }
      ... (the loops above)
      return results
  \<close>
\<close>

definition get_all_data :: "'w session \<Rightarrow> 'w \<Rightarrow> soup \<Rightarrow> (exn + results) \<times> 'w" where
  "get_all_data get w sp =
     (case extract_table_by_header sp ''Core Builds'' of
        Inl e \<Rightarrow> (Inl e, w)
      | Inr core \<Rightarrow>
     (case extract_table_by_header sp ''Starter Items'' of
        Inl e \<Rightarrow> (Inl e, w)
      | Inr starter \<Rightarrow>
     (case extract_table_by_header sp ''Boots'' of
        Inl e \<Rightarrow> (Inl e, w)
      | Inr boots \<Rightarrow>
     (case extract_table_by_header sp ''Skill'' of
        Inl e \<Rightarrow> (Inl e, w)
      | Inr skills \<Rightarrow>
          (let res = [(''Core Builds'', core), (''Starter Items'', starter),
                      (''Boots'', boots), (''Skills'', skills)];
               (res', w') = prefetch_results get w res
           in (Inr res', w'))))))"

section \<open>The worker of the application\<close>

text \<open>
  \<^verbatim>\<open>
  def _worker_thread(self, url):
      soup = self.scraper.fetch_page(url)
      if not soup:
          self.root.after(0, self._handle_error)
          return
      if "Core Builds" not in soup.text and "Starter Items" not in soup.text:
           self.root.after(0, self._handle_not_found)
           return
      results = self.scraper.get_all_data(soup)
      self.root.after(0, lambda: self._update_ui(results))
  \<close>
  The worker's result is the callback it schedules on the interface: \<open>_handle_error\<close>
  shows "Connection Error", \<open>_handle_not_found\<close> shows "Champion Not Found",
  \<open>_update_ui\<close> shows the results. \<open>Inl\<close> is an exception that ends the thread with no
  callback.
\<close>

datatype ui_call = handle_error | handle_not_found | update_ui results

definition worker_thread :: "'w session \<Rightarrow> 'w \<Rightarrow> string \<Rightarrow> (exn + ui_call) \<times> 'w" where
  "worker_thread get w url =
     (case fetch_page get w url of
        (Inl e, w1) \<Rightarrow> (Inl e, w1)
      | (Inr None, w1) \<Rightarrow> (Inr handle_error, w1)
      | (Inr (Some sp), w1) \<Rightarrow>
          if \<not> py_in ''Core Builds'' (soup_text sp) \<and> \<not> py_in ''Starter Items'' (soup_text sp)
          then (Inr handle_not_found, w1)
          else (case get_all_data get w1 sp of
                  (Inl e, w2) \<Rightarrow> (Inl e, w2)
                | (Inr res, w2) \<Rightarrow> (Inr (update_ui res), w2)))"

section \<open>Notions used to state the properties\<close>

text \<open>A row as the extractor built it, before \<open>get_all_data\<close> assigned image bytes to
  its items.\<close>

definition without_images :: "BuildRow \<Rightarrow> BuildRow" where
  "without_images row = row\<lparr>items := map (\<lambda>item. item\<lparr>image_data := None\<rparr>) (items row)\<rparr>"

section \<open>The extractor on a store of objects\<close>

text \<open>
  The definitions above give the rows of a call as values. In the program a row and an
  item are objects: every call of \<open>GameItem(...)\<close> and of \<open>BuildRow(...)\<close> makes a new
  one, a row holds references to its items, and two calls of the extractor return
  different objects. To speak of two calls in a row, the extractor is written once more
  over a store: the parsed document that the variable \<open>soup\<close> refers to, and the heap
  of the objects made so far, where the address of an object is its position. The
  queries of the tree (\<open>find\<close>, \<open>find_parent\<close>, \<open>find_all\<close>, \<open>get\<close>, \<open>get_text\<close>) read
  the document of the store; the two constructors are the only steps that write.
\<close>

datatype obj = GameItemObj GameItem | BuildRowObj "nat list" string string string

record store =
  document :: soup
  heap :: "obj list"

definition alloc :: "obj \<Rightarrow> store \<Rightarrow> nat \<times> store" where
  "alloc ob s = (length (heap s), s\<lparr>heap := heap s @ [ob]\<rparr>)"

text \<open>\<open>_extract_item_details\<close>, returning the address of the \<open>GameItem\<close> it makes.\<close>

definition extract_item_details_obj :: "element \<Rightarrow> store \<Rightarrow> (exn + nat) \<times> store" where
  "extract_item_details_obj img_tag s =
     (let nm = get_attr (snd img_tag) ''alt'' ''Unknown Item'';
          src = get_attr (snd img_tag) ''src'' []
      in case extract_count img_tag of
           Inl e \<Rightarrow> (Inl e, s)
         | Inr cnt \<Rightarrow>
             (case alloc (GameItemObj \<lparr>name = nm, image_url = src, count = cnt,
                                       image_data = None\<rparr>) s of
                (a, s') \<Rightarrow> (Inr a, s')))"

text \<open>\<open>[self._extract_item_details(img) for img in images if img.get('src')]\<close>\<close>

fun items_list_obj :: "element list \<Rightarrow> store \<Rightarrow> (exn + nat list) \<times> store" where
  "items_list_obj [] s = (Inr [], s)"
| "items_list_obj (img # images) s =
     (if has_src img then
        (case extract_item_details_obj img s of
           (Inl e, s1) \<Rightarrow> (Inl e, s1)
         | (Inr a, s1) \<Rightarrow>
             (case items_list_obj images s1 of
                (Inl e, s2) \<Rightarrow> (Inl e, s2)
              | (Inr as, s2) \<Rightarrow> (Inr (a # as), s2)))
      else items_list_obj images s)"

text \<open>The body of the loop over the rows, returning the address of the \<open>BuildRow\<close>.\<close>

definition row_body_obj :: "element \<Rightarrow> store \<Rightarrow> (exn + nat option) \<times> store" where
  "row_body_obj row s =
     (let cols = find_all (named ''td'') row in
      if cols = [] \<or> length cols < 3 then (Inr None, s)
      else
        let item_container = cols ! 0;
            images = find_all (named ''img'') item_container
        in case items_list_obj images s of
             (Inl e, s1) \<Rightarrow> (Inl e, s1)
           | (Inr items_list, s1) \<Rightarrow>
               let stats_div = cols ! 1;
                   pick = text_or_na ''strong'' stats_div;
                   gms = text_or_na ''span'' stats_div;
                   win_rate_div = cols ! 2;
                   win = text_or_na ''strong'' win_rate_div
               in (case alloc (BuildRowObj items_list win pick gms) s1 of
                     (a, s2) \<Rightarrow> (Inr (Some a), s2)))"

fun rows_loop_obj :: "element list \<Rightarrow> nat list \<Rightarrow> store \<Rightarrow> (exn + nat list) \<times> store" where
  "rows_loop_obj [] data s = (Inr data, s)"
| "rows_loop_obj (row # rows) data s =
     (case row_body_obj row s of
        (Inl e, s1) \<Rightarrow> (Inl e, s1)
      | (Inr None, s1) \<Rightarrow> rows_loop_obj rows data s1
      | (Inr (Some a), s1) \<Rightarrow> rows_loop_obj rows (data @ [a]) s1)"

text \<open>\<open>_extract_table_by_header(soup, header_text)\<close>, where \<open>soup\<close> refers to the
  document of the store.\<close>

definition extract_table_by_header_obj :: "string \<Rightarrow> store \<Rightarrow> (exn + nat list) \<times> store" where
  "extract_table_by_header_obj header_text s =
     (case soup_find (header_matches header_text) (document s) of
        None \<Rightarrow> (Inr [], s)
      | Some header \<Rightarrow>
          (case find_parent (named ''table'') header of
             None \<Rightarrow> (Inr [], s)
           | Some table \<Rightarrow>
               (case find_tag (named ''tbody'') table of
                  None \<Rightarrow> (Inr [], s)
                | Some tbody \<Rightarrow> rows_loop_obj (find_all (named ''tr'') tbody) [] s)))"

text \<open>Reading objects back: the item at an address, and the row at an address with its
  items read through their addresses. This is the value that \<open>==\<close> on two \<open>BuildRow\<close>
  objects compares.\<close>

definition item_at :: "store \<Rightarrow> nat \<Rightarrow> GameItem option" where
  "item_at s a =
     (if a < length (heap s)
      then (case heap s ! a of GameItemObj item \<Rightarrow> Some item | BuildRowObj its w p g \<Rightarrow> None)
      else None)"

definition row_at :: "store \<Rightarrow> nat \<Rightarrow> BuildRow option" where
  "row_at s a =
     (if a < length (heap s)
      then (case heap s ! a of
              GameItemObj item \<Rightarrow> None
            | BuildRowObj its w p g \<Rightarrow>
                if list_all (\<lambda>i. item_at s i \<noteq> None) its
                then Some \<lparr>items = map (\<lambda>i. the (item_at s i)) its,
                           win_rate = w, pick_rate = p, games = g\<rparr>
                else None)
      else None)"

section \<open>Example documents and sessions\<close>

text \<open>A cell with one item image inside a \<open>relative\<close> container that carries a count
  badge: \<open><td><div class="relative"><img src=... alt="Boots"><div class="absolute badge">
  ...</div></div></td>\<close>.\<close>

definition badge_img :: "string \<Rightarrow> node" where
  "badge_img src = Tag ''img'' [(''src'', src), (''alt'', ''Boots'')] [] []"

definition badge_div :: "string \<Rightarrow> node" where
  "badge_div badge = Tag ''div'' [] [''absolute'', ''badge''] [NavigableString badge]"

definition badge_container :: "string \<Rightarrow> string \<Rightarrow> node" where
  "badge_container src badge = Tag ''div'' [] [''relative''] [badge_img src, badge_div badge]"

definition badge_cell :: "string \<Rightarrow> string \<Rightarrow> node" where
  "badge_cell src badge = Tag ''td'' [] [] [badge_container src badge]"

text \<open>The image, the container and the badge of such a cell as elements: each with
  its ancestors, the nearest first.\<close>

definition badge_img_element :: "string \<Rightarrow> string \<Rightarrow> element" where
  "badge_img_element src badge =
     ([badge_container src badge, badge_cell src badge], badge_img src)"

definition badge_container_element :: "string \<Rightarrow> string \<Rightarrow> element" where
  "badge_container_element src badge = ([badge_cell src badge], badge_container src badge)"

definition badge_div_element :: "string \<Rightarrow> string \<Rightarrow> element" where
  "badge_div_element src badge =
     ([badge_container src badge, badge_cell src badge], badge_div badge)"

text \<open>An image with no container around it.\<close>

definition bare_img_element :: element where
  "bare_img_element = ([Tag ''td'' [] [] [badge_img ''a.png'']], badge_img ''a.png'')"

text \<open>An image in a container that has no badge.\<close>

definition unbadged_img_element :: element where
  "unbadged_img_element =
     ([Tag ''div'' [] [''relative''] [badge_img ''a.png'']], badge_img ''a.png'')"

definition stats_cell :: "string \<Rightarrow> string \<Rightarrow> node" where
  "stats_cell pick gms =
     Tag ''td'' [] []
       [Tag ''strong'' [] [] [NavigableString pick], Tag ''span'' [] [] [NavigableString gms]]"

definition rate_cell :: "string \<Rightarrow> node" where
  "rate_cell win = Tag ''td'' [] [] [Tag ''strong'' [] [] [NavigableString win]]"

definition empty_cell :: node where
  "empty_cell = Tag ''td'' [] [] []"

text \<open>Three rows: a full one, one with two cells only, and one with three cells whose
  statistics are missing and whose first cell holds an image without \<open>src\<close>, an image
  with an empty \<open>src\<close> and an image with neither \<open>alt\<close> nor badge.\<close>

definition full_row :: node where
  "full_row = Tag ''tr'' [] [] [badge_cell ''//cdn/boots.png'' '' 3 '', stats_cell ''12.5%'' ''1,024'',
                              rate_cell ''55.1%'']"

definition short_row :: node where
  "short_row = Tag ''tr'' [] [] [badge_cell ''//cdn/boots.png'' ''2'', stats_cell ''1%'' ''7'']"

definition bare_row :: node where
  "bare_row =
     Tag ''tr'' [] []
       [Tag ''td'' [] []
          [Tag ''img'' [(''alt'', ''Ghost'')] [] [], Tag ''img'' [(''src'', []), (''alt'', ''Void'')] [] [],
           Tag ''img'' [(''src'', ''b.png'')] [] []],
        empty_cell, empty_cell]"

definition table_of :: "string \<Rightarrow> node list \<Rightarrow> node" where
  "table_of heading rows =
     Tag ''table'' [] []
       [Tag ''thead'' [] [] [Tag ''tr'' [] [] [Tag ''th'' [] [] [NavigableString heading]]],
        Tag ''tbody'' [] [] rows]"

text \<open>The element of a row of \<open>table_of heading rows\<close> standing at the top of a
  document.\<close>

definition row_element :: "string \<Rightarrow> node list \<Rightarrow> node \<Rightarrow> element" where
  "row_element heading rows row = ([Tag ''tbody'' [] [] rows, table_of heading rows], row)"

text \<open>A page with the tables of three categories and none for the boots.\<close>

definition page_without_boots :: soup where
  "page_without_boots =
     [table_of ''Core Builds Overview'' [full_row, short_row, bare_row],
      table_of ''Starter Items'' [full_row],
      table_of ''Skills'' [bare_row]]"

text \<open>A heading cell outside any table, and a table without a body.\<close>

definition page_header_only :: soup where
  "page_header_only = [Tag ''div'' [] [] [Tag ''th'' [] [] [NavigableString ''Core Builds'']]]"

definition page_no_tbody :: soup where
  "page_no_tbody =
     [Tag ''table'' [] [] [Tag ''tr'' [] [] [Tag ''th'' [] [] [NavigableString ''CORE BUILDS'']]]]"

text \<open>A page where a matching heading outside any table comes before a complete table
  with the same heading.\<close>

definition page_two_headers :: soup where
  "page_two_headers =
     [Tag ''div'' [] [] [Tag ''th'' [] [] [NavigableString ''Core Builds'']],
      table_of ''Core Builds'' [full_row]]"

text \<open>A page whose only badge reads \<open>0\<close>.\<close>

definition page_zero_badge :: soup where
  "page_zero_badge =
     [table_of ''Core Builds''
        [Tag ''tr'' [] [] [badge_cell ''//cdn/boots.png'' ''0'', stats_cell ''12.5%'' ''1,024'',
                          rate_cell ''55.1%'']]]"

text \<open>The rows that the extractor builds from \<open>full_row\<close> and \<open>bare_row\<close>.\<close>

definition full_build_row :: BuildRow where
  "full_build_row =
     \<lparr>items = [\<lparr>name = ''Boots'', image_url = ''//cdn/boots.png'', count = 3,
                 image_data = None\<rparr>],
      win_rate = ''55.1%'', pick_rate = ''12.5%'', games = ''1,024''\<rparr>"

definition bare_build_row :: BuildRow where
  "bare_build_row =
     \<lparr>items = [\<lparr>name = ''Unknown Item'', image_url = ''b.png'', count = 1,
                 image_data = None\<rparr>],
      win_rate = ''N/A'', pick_rate = ''N/A'', games = ''N/A''\<rparr>"

text \<open>A page with the core table only, and the store that holds it and no object yet.\<close>

definition page_core_only :: soup where
  "page_core_only = [table_of ''Core Builds'' [full_row, short_row, bare_row]]"

definition fresh_store :: store where
  "fresh_store = \<lparr>document = page_core_only, heap = []\<rparr>"

text \<open>Sessions whose state counts the requests made. \<open>status_session st\<close> answers every
  request with status \<open>st\<close>, an empty document and the requested URL as the body;
  \<open>failing_session e\<close> raises \<open>e\<close> on every request.\<close>

definition status_session :: "int \<Rightarrow> nat session" where
  "status_session st w url timeout =
     (Inr \<lparr>status_code = st, text_soup = [], content = url\<rparr>, Suc w)"

definition failing_session :: "exn \<Rightarrow> nat session" where
  "failing_session e w url timeout = (Inl e, Suc w)"

section \<open>Facts about the library operations\<close>

lemma startswith_iff: "startswith s p \<longleftrightarrow> (\<exists>suf. s = p @ suf)"
  by (induction s p rule: startswith.induct) auto

lemma py_in_iff: "py_in sub s \<longleftrightarrow> (\<exists>pre suf. s = pre @ sub @ suf)"
proof (induction s)
  case Nil
  then show ?case by simp
next
  case (Cons c cs)
  show ?case
  proof
    assume "py_in sub (c # cs)"
    then consider "startswith (c # cs) sub" | "py_in sub cs" by auto
    then show "\<exists>pre suf. c # cs = pre @ sub @ suf"
    proof cases
      case 1
      then obtain suf where "c # cs = sub @ suf" by (auto simp: startswith_iff)
      then have "c # cs = [] @ sub @ suf" by simp
      then show ?thesis by blast
    next
      case 2
      then obtain pre suf where "cs = pre @ sub @ suf" using Cons.IH by blast
      then have "c # cs = (c # pre) @ sub @ suf" by simp
      then show ?thesis by blast
    qed
  next
    assume "\<exists>pre suf. c # cs = pre @ sub @ suf"
    then obtain pre suf where eq: "c # cs = pre @ sub @ suf" by blast
    show "py_in sub (c # cs)"
    proof (cases pre)
      case Nil
      then have "startswith (c # cs) sub" using eq by (auto simp: startswith_iff)
      then show ?thesis by simp
    next
      case (Cons p ps)
      then have "cs = ps @ sub @ suf" using eq by simp
      then have "py_in sub cs" using Cons.IH by blast
      then show ?thesis by simp
    qed
  qed
qed

lemma in_a_z_iff: "in_a_z c \<longleftrightarrow> c \<in> set ''abcdefghijklmnopqrstuvwxyz''"
proof
  assume az: "in_a_z c"
  have codes: "map (of_char :: char \<Rightarrow> nat) ''abcdefghijklmnopqrstuvwxyz'' = [97..<123]"
    by code_simp
  from az have "97 \<le> (of_char c :: nat) \<and> (of_char c :: nat) < 123" by (simp add: in_a_z_def)
  then have "(of_char c :: nat) \<in> set [97..<123]" by (simp only: set_upt atLeastLessThan_iff)
  then have "(of_char c :: nat) \<in> of_char ` set ''abcdefghijklmnopqrstuvwxyz''"
    by (simp only: codes [symmetric] set_map)
  then show "c \<in> set ''abcdefghijklmnopqrstuvwxyz''"
    by (simp only: inj_image_mem_iff [OF inj_of_char])
next
  assume "c \<in> set ''abcdefghijklmnopqrstuvwxyz''"
  then show "in_a_z c" by (auto simp: in_a_z_def)
qed

subsection \<open>\<open>int\<close> on decimal numerals\<close>

lemma digits_loop_digits:
  "\<forall>c\<in>set ds. isdigit c \<Longrightarrow> prev \<or> ds \<noteq> [] \<Longrightarrow>
   digits_loop acc prev ds = Some (foldl (\<lambda>a c. 10 * a + digit_value c) acc ds)"
  by (induction ds arbitrary: acc prev) auto

lemma digits_loop_chars:
  "digits_loop acc prev s = Some v \<Longrightarrow> \<forall>c\<in>set s. isdigit c \<or> c = CHR ''_''"
  by (induction s arbitrary: acc prev) (auto split: if_splits)

lemma isdigit_char_of: "(k::nat) < 10 \<Longrightarrow> isdigit (char_of (48 + k))"
  by (simp add: isdigit_def)

lemma digit_value_char_of: "(k::nat) < 10 \<Longrightarrow> digit_value (char_of (48 + k)) = k"
  by (simp add: digit_value_def)

lemma decimal_digits: "\<forall>c\<in>set (decimal n). isdigit c"
proof (induction n rule: decimal.induct)
  case (1 n)
  show ?case
  proof (cases "n < 10")
    case True
    then show ?thesis by (subst decimal.simps) (simp add: isdigit_char_of)
  next
    case False
    have "n mod 10 < 10" by simp
    then have "isdigit (char_of (48 + n mod 10))" by (rule isdigit_char_of)
    with False 1 show ?thesis by (subst decimal.simps) auto
  qed
qed

lemma decimal_nonempty: "decimal n \<noteq> []"
  by (subst decimal.simps) simp

lemma decimal_value: "foldl (\<lambda>a c. 10 * a + digit_value c) 0 (decimal n) = n"
proof (induction n rule: decimal.induct)
  case (1 n)
  show ?case
  proof (cases "n < 10")
    case True
    then show ?thesis by (subst decimal.simps) (simp add: digit_value_char_of)
  next
    case False
    have "n mod 10 < 10" by simp
    then have d: "digit_value (char_of (48 + n mod 10)) = n mod 10" by (rule digit_value_char_of)
    from False 1 have "foldl (\<lambda>a c. 10 * a + digit_value c) 0 (decimal (n div 10)) = n div 10"
      by simp
    with False d show ?thesis by (subst decimal.simps) simp
  qed
qed

lemma decimal_power_of_ten: "decimal (10 ^ k) = CHR ''1'' # replicate k (CHR ''0'')"
proof (induction k)
  case 0
  have "char_of (49::nat) = CHR ''1''" by code_simp
  then show ?case by (subst decimal.simps) simp
next
  case (Suc k)
  have z: "char_of (48::nat) = CHR ''0''" by code_simp
  have "\<not> (10::nat) ^ Suc k < 10" by simp
  then have "decimal (10 ^ Suc k)
      = decimal (10 ^ Suc k div 10) @ [char_of (48 + (10::nat) ^ Suc k mod 10)]"
    by (subst decimal.simps) simp
  also have "\<dots> = decimal (10 ^ k) @ [CHR ''0'']"
  proof -
    have d: "10 ^ Suc k div 10 = (10::nat) ^ k" and m: "10 ^ Suc k mod 10 = (0::nat)"
      by simp_all
    show ?thesis by (simp only: d m add_0_right z)
  qed
  also have "\<dots> = CHR ''1'' # replicate (Suc k) (CHR ''0'')"
    by (simp add: Suc.IH replicate_append_same)
  finally show ?case .
qed

lemma isdigit_not_space: "isdigit c \<Longrightarrow> \<not> isspace c"
  by (auto simp: isdigit_def isspace_def Let_def)

lemma int_isspace_isspace: "int_isspace c \<Longrightarrow> isspace c"
  by (auto simp: int_isspace_def isspace_def Let_def)

lemma strip_no_space:
  assumes "s \<noteq> []" "\<not> isspace (hd s)" "\<not> isspace (last s)"
  shows "strip s = s"
proof -
  from assms have "dropWhile isspace s = s" by (cases s) auto
  moreover from assms have "dropWhile isspace (rev s) = rev s"
    by (cases "rev s") (auto simp: last_rev hd_rev)
  ultimately show ?thesis by (simp add: strip_def)
qed

lemma int_strip_no_space:
  assumes "s \<noteq> []" "\<not> isspace (hd s)" "\<not> isspace (last s)"
  shows "int_strip s = s"
proof -
  from assms have h: "\<not> int_isspace (hd s)" and l: "\<not> int_isspace (last s)"
    using int_isspace_isspace by blast+
  from assms(1) h have "dropWhile int_isspace s = s" by (cases s) auto
  moreover from assms(1) l have "dropWhile int_isspace (rev s) = rev s"
    by (cases "rev s") (auto simp: last_rev hd_rev)
  ultimately show ?thesis by (simp add: int_strip_def)
qed

lemma int_strip_chars: "c \<in> set s \<Longrightarrow> int_isspace c \<or> c \<in> set (int_strip s)"
proof -
  assume c: "c \<in> set s"
  let ?t = "dropWhile int_isspace s"
  have "set s = set (takeWhile int_isspace s) \<union> set ?t"
    by (metis set_append takeWhile_dropWhile_id)
  moreover have "set ?t = set (rev ?t)" by simp
  moreover have "set (rev ?t) = set (takeWhile int_isspace (rev ?t)) \<union> set (dropWhile int_isspace (rev ?t))"
    by (metis set_append takeWhile_dropWhile_id)
  moreover have "set (dropWhile int_isspace (rev ?t)) = set (int_strip s)"
    by (simp add: int_strip_def)
  ultimately have "c \<in> set (takeWhile int_isspace s) \<or> c \<in> set (takeWhile int_isspace (rev ?t))
      \<or> c \<in> set (int_strip s)"
    using c by blast
  then show ?thesis by (auto dest: set_takeWhileD)
qed

lemma isdigit_not_sign: "isdigit c \<Longrightarrow> c \<noteq> CHR ''-'' \<and> c \<noteq> CHR ''+''"
  by (auto simp: isdigit_def)

lemma parse_digits_decimal:
  "parse_digits (decimal n) = (if max_str_digits < length (decimal n) then None else Some n)"
proof -
  have dg: "\<forall>c\<in>set (decimal n). isdigit c" by (rule decimal_digits)
  then have f: "filter isdigit (decimal n) = decimal n" by simp
  have "digits_loop 0 False (decimal n) = Some n"
    using digits_loop_digits [OF dg, of False 0] decimal_nonempty decimal_value by simp
  then show ?thesis by (simp add: parse_digits_def f)
qed

lemma py_int_decimal_cases:
  "py_int (decimal n) = (if max_str_digits < length (decimal n) then Inl ValueError else Inr (int n))"
proof -
  let ?s = "decimal n"
  have ne: "?s \<noteq> []" by (rule decimal_nonempty)
  have dg: "\<forall>c\<in>set ?s. isdigit c" by (rule decimal_digits)
  from ne dg have "isdigit (hd ?s)" "isdigit (last ?s)" by auto
  then have st: "int_strip ?s = ?s" using ne by (simp add: int_strip_no_space isdigit_not_space)
  obtain c cs where cs: "?s = c # cs" using ne by (cases ?s) auto
  with dg have "isdigit c" by simp
  then have sg: "c \<noteq> CHR ''-''" "c \<noteq> CHR ''+''" using isdigit_not_sign by auto
  have "py_int ?s = (case parse_digits ?s of None \<Rightarrow> Inl ValueError | Some n \<Rightarrow> Inr (int n))"
    unfolding py_int_def st using sg by (simp add: cs)
  then show ?thesis by (simp add: parse_digits_decimal)
qed

lemma py_int_decimal:
  "length (decimal n) \<le> max_str_digits \<Longrightarrow> py_int (decimal n) = Inr (int n)"
  by (simp add: py_int_decimal_cases)

lemma py_int_decimal_long:
  "max_str_digits < length (decimal n) \<Longrightarrow> py_int (decimal n) = Inl ValueError"
  by (simp add: py_int_decimal_cases)

lemma parse_digits_chars:
  "parse_digits s = Some v \<Longrightarrow> \<forall>c\<in>set s. isdigit c \<or> c = CHR ''_''"
  using digits_loop_chars [of 0 False s]
  by (auto simp: parse_digits_def split: option.splits if_splits)

lemma py_int_Inr_chars:
  assumes "py_int s = Inr k"
  shows "\<forall>c\<in>set s. isdigit c \<or> c = CHR ''+'' \<or> c = CHR ''-'' \<or> c = CHR ''_'' \<or> int_isspace c"
proof -
  have "\<forall>c\<in>set (int_strip s). isdigit c \<or> c = CHR ''+'' \<or> c = CHR ''-'' \<or> c = CHR ''_''"
  proof (cases "int_strip s")
    case Nil
    then show ?thesis by simp
  next
    case (Cons c cs)
    show ?thesis
    proof (cases "c = CHR ''-'' \<or> c = CHR ''+''")
      case True
      with assms Cons obtain v where "parse_digits cs = Some v"
        by (auto simp: py_int_def split: option.splits if_splits)
      from parse_digits_chars [OF this] True Cons show ?thesis by auto
    next
      case False
      with assms Cons obtain v where "parse_digits (c # cs) = Some v"
        by (auto simp: py_int_def split: option.splits if_splits)
      from parse_digits_chars [OF this] Cons show ?thesis by auto
    qed
  qed
  with int_strip_chars [of _ s] show ?thesis by blast
qed

section \<open>The extractor returns\<close>

lemma py_int_error: "py_int s = Inl e \<Longrightarrow> e = ValueError"
  by (auto simp: py_int_def split: list.splits if_splits option.splits)

lemma extract_count_total: "\<exists>n. extract_count e = Inr n"
proof (cases "find_parent (named_class ''div'' ''relative'') e")
  case None
  then show ?thesis by (simp add: extract_count_def)
next
  case (Some p)
  show ?thesis
  proof (cases "find_tag (named_class ''div'' ''absolute'') p")
    case None
    with Some show ?thesis by (simp add: extract_count_def)
  next
    case (Some b)
    show ?thesis
    proof (cases "py_int (get_text_strip (snd b))")
      case (Inl x)
      then have "x = ValueError" by (rule py_int_error)
      with Inl Some \<open>find_parent _ e = Some p\<close> show ?thesis by (simp add: extract_count_def)
    next
      case (Inr n)
      with Some \<open>find_parent _ e = Some p\<close> show ?thesis by (simp add: extract_count_def)
    qed
  qed
qed

lemma extract_item_details_total:
  "\<exists>cnt. extract_item_details e =
     Inr \<lparr>name = get_attr (snd e) ''alt'' ''Unknown Item'', image_url = get_attr (snd e) ''src'' [],
          count = cnt, image_data = None\<rparr> \<and> extract_count e = Inr cnt"
proof -
  obtain n where "extract_count e = Inr n" using extract_count_total by blast
  then show ?thesis by (simp add: extract_item_details_def)
qed

lemma has_src_get_attr: "has_src e \<Longrightarrow> get_attr (snd e) ''src'' [] \<noteq> []"
  by (auto simp: has_src_def get_attr_def split: option.splits)

lemma map_exn_Inr:
  "\<forall>x\<in>set xs. \<exists>y. f x = Inr y \<Longrightarrow> map_exn f xs = Inr (map (\<lambda>x. projr (f x)) xs)"
  by (induction xs) auto

lemma items_list_Inr:
  "map_exn extract_item_details xs = Inr (map (\<lambda>x. projr (extract_item_details x)) xs)"
proof (rule map_exn_Inr)
  show "\<forall>x\<in>set xs. \<exists>y. extract_item_details x = Inr y"
    using extract_item_details_total by blast
qed

lemma row_body_short:
  "length (find_all (named ''td'') row) < 3 \<Longrightarrow> row_body row = Inr None"
  by (simp add: row_body_def Let_def)

lemma row_body_long:
  assumes "3 \<le> length (find_all (named ''td'') row)"
  shows "row_body row =
     Inr (Some \<lparr>items = map (\<lambda>x. projr (extract_item_details x))
                    (filter has_src (find_all (named ''img'') (find_all (named ''td'') row ! 0))),
            win_rate = text_or_na ''strong'' (find_all (named ''td'') row ! 2),
            pick_rate = text_or_na ''strong'' (find_all (named ''td'') row ! 1),
            games = text_or_na ''span'' (find_all (named ''td'') row ! 1)\<rparr>)"
proof -
  from assms have "find_all (named ''td'') row \<noteq> []" "\<not> length (find_all (named ''td'') row) < 3"
    by auto
  then show ?thesis by (simp add: row_body_def Let_def items_list_Inr)
qed

lemma row_body_total: "\<exists>ob. row_body row = Inr ob"
proof (cases "length (find_all (named ''td'') row) < 3")
  case True
  then show ?thesis by (simp add: row_body_short)
next
  case False
  then have "3 \<le> length (find_all (named ''td'') row)" by simp
  then show ?thesis by (simp add: row_body_long)
qed

lemma rows_loop_eq:
  "rows_loop rows data =
     Inr (data @ List.map_filter (\<lambda>r. case row_body r of Inr ob \<Rightarrow> ob | Inl e \<Rightarrow> None) rows)"
proof (induction rows arbitrary: data)
  case Nil
  then show ?case by (simp add: List.map_filter_simps)
next
  case (Cons r rows)
  obtain ob where ob: "row_body r = Inr ob" using row_body_total by blast
  show ?case
  proof (cases ob)
    case None
    with ob Cons show ?thesis by (simp add: List.map_filter_simps)
  next
    case (Some b)
    with ob Cons show ?thesis by (simp add: List.map_filter_simps)
  qed
qed

lemma extract_table_by_header_total: "\<exists>rows. extract_table_by_header sp h = Inr rows"
  by (simp add: extract_table_by_header_def rows_loop_eq split: option.splits)

section \<open>Properties of the program\<close>

subsection \<open>Name normalizer\<close>

text \<open>
  C4: for every input string, \<open>normalize_champion_name\<close> returns a string of lowercase
  letters \<open>a\<close>..\<open>z\<close> only: it is the lowercased input with every character outside
  \<open>a\<close>..\<open>z\<close> removed. \<open>Vel'Koz\<close> becomes \<open>velkoz\<close>, \<open>Dr. Mundo\<close> \<open>drmundo\<close>,
  \<open>Lee Sin\<close> \<open>leesin\<close>, \<open>Nunu & Willump\<close> \<open>nunuwillump\<close>, and the empty string stays
  empty. The function is total: it returns a string for every input, and as a function of
  its argument alone it has no effect and no second answer.
\<close>

theorem normalize_champion_name_a_z:
  "(\<forall>c\<in>set (normalize_champion_name s). c \<in> set ''abcdefghijklmnopqrstuvwxyz'')
   \<and> normalize_champion_name s = filter (\<lambda>c. c \<in> set ''abcdefghijklmnopqrstuvwxyz'') (lower s)
   \<and> normalize_champion_name ''Vel'Koz'' = ''velkoz''
   \<and> normalize_champion_name ''Dr. Mundo'' = ''drmundo''
   \<and> normalize_champion_name ''Lee Sin'' = ''leesin''
   \<and> normalize_champion_name ''Nunu & Willump'' = ''nunuwillump''
   \<and> normalize_champion_name [] = []"
proof -
  have eq: "normalize_champion_name s = filter (\<lambda>c. c \<in> set ''abcdefghijklmnopqrstuvwxyz'') (lower s)"
    unfolding normalize_champion_name_def re_sub_non_a_z_def Let_def
    by (rule filter_cong) (simp_all only: in_a_z_iff)
  have all: "\<forall>c\<in>set (normalize_champion_name s). c \<in> set ''abcdefghijklmnopqrstuvwxyz''"
    unfolding eq by (simp only: set_filter) blast
  have e1: "normalize_champion_name ''Vel'Koz'' = ''velkoz''" by code_simp
  have e2: "normalize_champion_name ''Dr. Mundo'' = ''drmundo''" by code_simp
  have e3: "normalize_champion_name ''Lee Sin'' = ''leesin''" by code_simp
  have e4: "normalize_champion_name ''Nunu & Willump'' = ''nunuwillump''" by code_simp
  have e5: "normalize_champion_name [] = []" by code_simp
  from all eq e1 e2 e3 e4 e5 show ?thesis by blast
qed

theorem normalize_champion_name_a_z_witness:
  "normalize_champion_name ''Wukong 2.0'' = ''wukong''
   \<and> set (normalize_champion_name ''Wukong 2.0'') \<subseteq> set ''abcdefghijklmnopqrstuvwxyz''"
proof -
  have "normalize_champion_name ''Wukong 2.0'' = ''wukong''" by code_simp
  moreover have "set (normalize_champion_name ''Wukong 2.0'') \<subseteq> set ''abcdefghijklmnopqrstuvwxyz''"
    using normalize_champion_name_a_z [of "''Wukong 2.0''"] by blast
  ultimately show ?thesis by simp
qed

subsection \<open>Stack counts\<close>

lemma extract_count_no_container:
  "find_parent (named_class ''div'' ''relative'') e = None \<Longrightarrow> extract_count e = Inr 1"
  by (simp add: extract_count_def)

lemma extract_count_no_badge:
  "find_parent (named_class ''div'' ''relative'') e = Some p \<Longrightarrow>
   find_tag (named_class ''div'' ''absolute'') p = None \<Longrightarrow> extract_count e = Inr 1"
  by (simp add: extract_count_def)

lemma extract_count_badge:
  assumes "find_parent (named_class ''div'' ''relative'') e = Some p"
    and "find_tag (named_class ''div'' ''absolute'') p = Some b"
  shows "extract_count e =
           (case py_int (get_text_strip (snd b)) of Inr k \<Rightarrow> Inr k | Inl x \<Rightarrow> Inr 1)"
proof (cases "py_int (get_text_strip (snd b))")
  case (Inl x)
  then have "x = ValueError" by (rule py_int_error)
  with Inl assms show ?thesis by (simp add: extract_count_def)
next
  case (Inr k)
  with assms show ?thesis by (simp add: extract_count_def)
qed

lemma extract_item_details_count_eq:
  "extract_item_details e = Inr item \<Longrightarrow> extract_count e = Inr (count item)"
  by (auto simp: extract_item_details_def Let_def split: sum.splits)

text \<open>The example cell with a badge, for any source and badge text.\<close>

lemma badge_find_parent:
  "find_parent (named_class ''div'' ''relative'') (badge_img_element src t)
     = Some (badge_container_element src t)"
  by (simp add: find_parent_def badge_img_element_def badge_container_element_def
      badge_container_def named_class_def)

lemma badge_find_tag:
  "find_tag (named_class ''div'' ''absolute'') (badge_container_element src t)
     = Some (badge_div_element src t)"
  by (simp add: find_tag_def find_all_def badge_container_element_def badge_div_element_def
      badge_container_def badge_div_def badge_img_def named_class_def)

lemma badge_text: "get_text_strip (snd (badge_div_element src t)) = strip t"
  by (simp add: get_text_strip_def badge_div_element_def badge_div_def)

lemma badge_extract_item_details:
  "extract_item_details (badge_img_element src t) =
     Inr \<lparr>name = ''Boots'', image_url = src,
          count = (case py_int (strip t) of Inr k \<Rightarrow> k | Inl x \<Rightarrow> 1), image_data = None\<rparr>"
proof -
  have "extract_count (badge_img_element src t)
          = (case py_int (strip t) of Inr k \<Rightarrow> Inr k | Inl x \<Rightarrow> Inr 1)"
    using extract_count_badge [OF badge_find_parent badge_find_tag, of src t]
    by (simp only: badge_text)
  then show ?thesis
    by (simp add: extract_item_details_def badge_img_element_def badge_img_def get_attr_def
        split: sum.splits)
qed

lemma strip_decimal: "strip (decimal n) = decimal n"
proof -
  have "decimal n \<noteq> []" by (rule decimal_nonempty)
  moreover from this decimal_digits [of n]
  have "isdigit (hd (decimal n))" "isdigit (last (decimal n))" by auto
  ultimately show ?thesis by (simp add: strip_no_space isdigit_not_space)
qed

lemma long_numeral_badge:
  assumes "max_str_digits \<le> k"
  shows "extract_item_details (badge_img_element src (decimal (10 ^ k))) =
     Inr \<lparr>name = ''Boots'', image_url = src, count = 1, image_data = None\<rparr>"
proof -
  have "length (decimal (10 ^ k)) = Suc k" by (simp add: decimal_power_of_ten)
  with assms have "max_str_digits < length (decimal (10 ^ k))" by simp
  then have "py_int (decimal (10 ^ k)) = Inl ValueError" by (rule py_int_decimal_long)
  then show ?thesis by (simp add: badge_extract_item_details strip_decimal)
qed

text \<open>
  C3, as stated, fails: \<open>int\<close> refuses a numeral of more than 4300 digits with a
  \<open>ValueError\<close>, which the \<open>except\<close> clause turns into the count 1. The badge text
  \<open>1\<close> followed by 4300 zeros is the decimal numeral of \<open>10 ^ 4300\<close>, reaches \<open>int\<close>
  unchanged, and gives an item of count 1.
\<close>

theorem extract_item_details_count_long_numeral:
  "CHR ''1'' # replicate 4300 (CHR ''0'') = decimal (10 ^ 4300)
   \<and> get_text_strip (snd (badge_div_element ''//cdn/boots.png'' (CHR ''1'' # replicate 4300 (CHR ''0''))))
       = CHR ''1'' # replicate 4300 (CHR ''0'')
   \<and> extract_item_details (badge_img_element ''//cdn/boots.png'' (CHR ''1'' # replicate 4300 (CHR ''0'')))
       = Inr \<lparr>name = ''Boots'', image_url = ''//cdn/boots.png'', count = 1, image_data = None\<rparr>
   \<and> int (10 ^ 4300) \<noteq> 1"
proof -
  have d: "decimal (10 ^ 4300) = CHR ''1'' # replicate 4300 (CHR ''0'')"
    by (rule decimal_power_of_ten)
  have m: "max_str_digits \<le> 4300" by (simp add: max_str_digits_def)
  have a: "CHR ''1'' # replicate 4300 (CHR ''0'') = decimal (10 ^ 4300)"
    by (rule d [symmetric])
  have b: "get_text_strip (snd (badge_div_element ''//cdn/boots.png'' (decimal (10 ^ 4300))))
       = decimal (10 ^ 4300)"
    by (simp only: badge_text strip_decimal)
  have c: "extract_item_details (badge_img_element ''//cdn/boots.png'' (decimal (10 ^ 4300)))
       = Inr \<lparr>name = ''Boots'', image_url = ''//cdn/boots.png'', count = 1, image_data = None\<rparr>"
    by (rule long_numeral_badge [OF m])
  have "(1::nat) < 10 ^ 4300" by (rule one_less_power) simp_all
  then have e: "int (10 ^ 4300) \<noteq> 1" by (simp only: of_nat_eq_1_iff)
  from a b [unfolded d] c [unfolded d] e show ?thesis by (intro conjI)
qed

text \<open>
  C3, amended: \<open>_extract_item_details\<close> returns an item for every image (no exception
  leaves it, so it never fails the row it is called for, and the loop body returns for
  every row). Without a \<open>relative\<close> container, or without an \<open>absolute\<close> badge in it,
  the count is 1. With a badge, the count is the integer that \<open>int\<close> reads from its
  stripped text: for the decimal numeral of \<open>n\<close> that is \<open>n\<close> when the numeral has at
  most 4300 digits (\<open>3\<close> gives 3), and 1 when it has more. Whenever \<open>int\<close> raises
  \<open>ValueError\<close> the count is 1; it does so on every text with a character that is
  neither a digit, a sign, an underscore nor whitespace, such as \<open>x\<close>.
\<close>

theorem extract_item_details_count:
  "(\<exists>item. extract_item_details img = Inr item \<and>
      (find_parent (named_class ''div'' ''relative'') img = None \<longrightarrow> count item = 1) \<and>
      (\<forall>p. find_parent (named_class ''div'' ''relative'') img = Some p \<longrightarrow>
         (find_tag (named_class ''div'' ''absolute'') p = None \<longrightarrow> count item = 1) \<and>
         (\<forall>b. find_tag (named_class ''div'' ''absolute'') p = Some b \<longrightarrow>
            (\<forall>n. get_text_strip (snd b) = decimal n \<longrightarrow>
               (length (decimal n) \<le> max_str_digits \<longrightarrow> count item = int n) \<and>
               (max_str_digits < length (decimal n) \<longrightarrow> count item = 1)) \<and>
            (\<forall>k. py_int (get_text_strip (snd b)) = Inr k \<longrightarrow> count item = k) \<and>
            (py_int (get_text_strip (snd b)) = Inl ValueError \<longrightarrow> count item = 1) \<and>
            ((\<exists>c\<in>set (get_text_strip (snd b)).
                 \<not> (isdigit c \<or> c = CHR ''+'' \<or> c = CHR ''-'' \<or> c = CHR ''_'' \<or> int_isspace c)) \<longrightarrow>
               count item = 1))))
   \<and> (\<exists>ob. row_body row = Inr ob)
   \<and> max_str_digits = 4300
   \<and> decimal 3 = ''3'' \<and> py_int ''3'' = Inr 3 \<and> py_int ''x'' = Inl ValueError"
  (is "(\<exists>item. ?P item) \<and> ?Q \<and> ?M \<and> ?D \<and> ?E \<and> ?F")
proof -
  let ?R = "named_class ''div'' ''relative''" and ?A = "named_class ''div'' ''absolute''"
  obtain item where item: "extract_item_details img = Inr item"
    using extract_item_details_total by blast
  then have cnt: "extract_count img = Inr (count item)"
    by (rule extract_item_details_count_eq)
  have a: "find_parent ?R img = None \<longrightarrow> count item = 1"
    using cnt extract_count_no_container [of img] by auto
  have b: "\<forall>p. find_parent ?R img = Some p \<longrightarrow>
         (find_tag ?A p = None \<longrightarrow> count item = 1) \<and>
         (\<forall>b. find_tag ?A p = Some b \<longrightarrow>
            (\<forall>n. get_text_strip (snd b) = decimal n \<longrightarrow>
               (length (decimal n) \<le> max_str_digits \<longrightarrow> count item = int n) \<and>
               (max_str_digits < length (decimal n) \<longrightarrow> count item = 1)) \<and>
            (\<forall>k. py_int (get_text_strip (snd b)) = Inr k \<longrightarrow> count item = k) \<and>
            (py_int (get_text_strip (snd b)) = Inl ValueError \<longrightarrow> count item = 1) \<and>
            ((\<exists>c\<in>set (get_text_strip (snd b)).
                 \<not> (isdigit c \<or> c = CHR ''+'' \<or> c = CHR ''-'' \<or> c = CHR ''_'' \<or> int_isspace c)) \<longrightarrow>
               count item = 1))"
  proof (intro allI impI conjI)
    fix p
    assume p: "find_parent ?R img = Some p"
    {
      assume "find_tag ?A p = None"
      with p cnt show "count item = 1" using extract_count_no_badge [of img p] by simp
    }
    fix b
    assume b: "find_tag ?A p = Some b"
    note eq = extract_count_badge [OF p b]
    {
      fix n
      assume t: "get_text_strip (snd b) = decimal n"
      {
        assume "length (decimal n) \<le> max_str_digits"
        with eq cnt t show "count item = int n" by (simp add: py_int_decimal)
      }
      {
        assume "max_str_digits < length (decimal n)"
        with eq cnt t show "count item = 1" by (simp add: py_int_decimal_long)
      }
    }
    {
      fix k
      assume "py_int (get_text_strip (snd b)) = Inr k"
      with eq cnt show "count item = k" by simp
    }
    {
      assume "py_int (get_text_strip (snd b)) = Inl ValueError"
      with eq cnt show "count item = 1" by simp
    }
    {
      assume x: "\<exists>c\<in>set (get_text_strip (snd b)).
          \<not> (isdigit c \<or> c = CHR ''+'' \<or> c = CHR ''-'' \<or> c = CHR ''_'' \<or> int_isspace c)"
      have "py_int (get_text_strip (snd b)) = Inl ValueError"
      proof (cases "py_int (get_text_strip (snd b))")
        case (Inl e)
        then show ?thesis using py_int_error by blast
      next
        case (Inr k)
        from py_int_Inr_chars [OF this] x show ?thesis by blast
      qed
      with eq cnt show "count item = 1" by simp
    }
  qed
  from item a b have "?P item" by (intro conjI)
  then have m: "\<exists>item. ?P item" by (rule exI [of ?P item])
  have c: ?Q by (rule row_body_total)
  have mm: ?M by (simp add: max_str_digits_def)
  have "char_of (51::nat) = CHR ''3''" by code_simp
  then have d: ?D by (simp add: decimal.simps)
  have e: ?E by code_simp
  have f: ?F by code_simp
  from m c mm d e f show ?thesis by (intro conjI)
qed

theorem extract_item_details_count_witness:
  "(\<exists>item. extract_item_details (badge_img_element ''//cdn/boots.png'' ''3'') = Inr item
        \<and> count item = 3)
   \<and> find_parent (named_class ''div'' ''relative'') (badge_img_element ''//cdn/boots.png'' ''3'')
       = Some (badge_container_element ''//cdn/boots.png'' ''3'')
   \<and> find_tag (named_class ''div'' ''absolute'') (badge_container_element ''//cdn/boots.png'' ''3'')
       = Some (badge_div_element ''//cdn/boots.png'' ''3'')
   \<and> get_text_strip (snd (badge_div_element ''//cdn/boots.png'' ''3'')) = decimal 3
   \<and> length (decimal 3) \<le> max_str_digits
   \<and> (\<exists>item. extract_item_details (badge_img_element ''//cdn/boots.png'' (decimal (10 ^ 4300)))
          = Inr item \<and> count item = 1)
   \<and> get_text_strip (snd (badge_div_element ''//cdn/boots.png'' (decimal (10 ^ 4300))))
       = decimal (10 ^ 4300)
   \<and> max_str_digits < length (decimal (10 ^ 4300))
   \<and> (\<exists>item. extract_item_details (badge_img_element ''//cdn/boots.png'' ''x'') = Inr item
        \<and> count item = 1)
   \<and> get_text_strip (snd (badge_div_element ''//cdn/boots.png'' ''x'')) = ''x''
   \<and> py_int ''x'' = Inl ValueError
   \<and> \<not> (isdigit (CHR ''x'') \<or> CHR ''x'' = CHR ''+'' \<or> CHR ''x'' = CHR ''-''
          \<or> CHR ''x'' = CHR ''_'' \<or> int_isspace (CHR ''x''))
   \<and> (\<exists>item. extract_item_details bare_img_element = Inr item \<and> count item = 1)
   \<and> find_parent (named_class ''div'' ''relative'') bare_img_element = None
   \<and> (\<exists>item. extract_item_details unbadged_img_element = Inr item \<and> count item = 1)
   \<and> (\<exists>p. find_parent (named_class ''div'' ''relative'') unbadged_img_element = Some p
        \<and> find_tag (named_class ''div'' ''absolute'') p = None)"
proof -
  let ?R = "named_class ''div'' ''relative''" and ?A = "named_class ''div'' ''absolute''"
  let ?u = "''//cdn/boots.png''"
  let ?C = "\<lambda>item b. (\<forall>n. get_text_strip (snd b) = decimal n \<longrightarrow>
               (length (decimal n) \<le> max_str_digits \<longrightarrow> count item = int n) \<and>
               (max_str_digits < length (decimal n) \<longrightarrow> count item = 1)) \<and>
            (\<forall>k. py_int (get_text_strip (snd b)) = Inr k \<longrightarrow> count item = k) \<and>
            (py_int (get_text_strip (snd b)) = Inl ValueError \<longrightarrow> count item = 1) \<and>
            ((\<exists>c\<in>set (get_text_strip (snd b)).
                 \<not> (isdigit c \<or> c = CHR ''+'' \<or> c = CHR ''-'' \<or> c = CHR ''_'' \<or> int_isspace c)) \<longrightarrow>
               count item = 1)"
  let ?B = "\<lambda>img item. \<forall>p. find_parent ?R img = Some p \<longrightarrow>
         (find_tag ?A p = None \<longrightarrow> count item = 1) \<and>
         (\<forall>b. find_tag ?A p = Some b \<longrightarrow> ?C item b)"
  let ?P = "\<lambda>img item. extract_item_details img = Inr item \<and>
      (find_parent ?R img = None \<longrightarrow> count item = 1) \<and> ?B img item"
  have d3: "decimal 3 = ''3''"
  proof -
    have "char_of (51::nat) = CHR ''3''" by code_simp
    then show ?thesis by (simp add: decimal.simps)
  qed
  have t3: "get_text_strip (snd (badge_div_element ?u ''3'')) = decimal 3"
    by (simp only: d3 [symmetric] badge_text strip_decimal)
  have l3: "length (decimal 3) \<le> max_str_digits" by (simp add: d3 max_str_digits_def)
  have tl: "get_text_strip (snd (badge_div_element ?u (decimal (10 ^ 4300)))) = decimal (10 ^ 4300)"
    by (simp only: badge_text strip_decimal)
  have ll: "max_str_digits < length (decimal (10 ^ 4300))"
    by (simp only: decimal_power_of_ten max_str_digits_def length_Cons length_replicate)
  have sx: "strip ''x'' = ''x''" by code_simp
  have tx: "get_text_strip (snd (badge_div_element ?u ''x'')) = ''x''"
    by (simp only: badge_text sx)
  have px: "py_int ''x'' = Inl ValueError" by code_simp
  have nx: "\<not> (isdigit (CHR ''x'') \<or> CHR ''x'' = CHR ''+'' \<or> CHR ''x'' = CHR ''-''
          \<or> CHR ''x'' = CHR ''_'' \<or> int_isspace (CHR ''x''))"
    by (simp add: isdigit_def int_isspace_def)
  have pb: "find_parent ?R bare_img_element = None" by code_simp
  have pu: "find_parent ?R unbadged_img_element
       = Some ([], Tag ''div'' [] [''relative''] [badge_img ''a.png''])" by code_simp
  have bu: "find_tag ?A ([], Tag ''div'' [] [''relative''] [badge_img ''a.png'']) = None"
    by code_simp
  have 1: "\<exists>item. extract_item_details (badge_img_element ?u ''3'') = Inr item \<and> count item = 3"
  proof -
    from extract_item_details_count [of "badge_img_element ?u ''3''", THEN conjunct1]
    obtain item where h: "?P (badge_img_element ?u ''3'') item" ..
    from h have b: "?B (badge_img_element ?u ''3'') item" by (rule conjunct2 [THEN conjunct2])
    note s = b [THEN spec, THEN mp, OF badge_find_parent, THEN conjunct2, THEN spec, THEN mp,
        OF badge_find_tag]
    from s [THEN conjunct1, THEN spec, THEN mp, OF t3, THEN conjunct1, THEN mp, OF l3]
    have "count item = 3" by simp
    with h show ?thesis by (intro exI [of _ item] conjI) (rule conjunct1)
  qed
  have 2: "\<exists>item. extract_item_details (badge_img_element ?u (decimal (10 ^ 4300))) = Inr item
      \<and> count item = 1"
  proof -
    from extract_item_details_count [of "badge_img_element ?u (decimal (10 ^ 4300))", THEN conjunct1]
    obtain item where h: "?P (badge_img_element ?u (decimal (10 ^ 4300))) item" ..
    from h have b: "?B (badge_img_element ?u (decimal (10 ^ 4300))) item"
      by (rule conjunct2 [THEN conjunct2])
    note s = b [THEN spec, THEN mp, OF badge_find_parent, THEN conjunct2, THEN spec, THEN mp,
        OF badge_find_tag]
    from s [THEN conjunct1, THEN spec, THEN mp, OF tl, THEN conjunct2, THEN mp, OF ll]
    have "count item = 1" .
    with h show ?thesis by (intro exI [of _ item] conjI) (rule conjunct1)
  qed
  have 3: "\<exists>item. extract_item_details (badge_img_element ?u ''x'') = Inr item \<and> count item = 1"
  proof -
    from extract_item_details_count [of "badge_img_element ?u ''x''", THEN conjunct1]
    obtain item where h: "?P (badge_img_element ?u ''x'') item" ..
    from h have b: "?B (badge_img_element ?u ''x'') item" by (rule conjunct2 [THEN conjunct2])
    note s = b [THEN spec, THEN mp, OF badge_find_parent, THEN conjunct2, THEN spec, THEN mp,
        OF badge_find_tag]
    have "\<exists>c\<in>set (get_text_strip (snd (badge_div_element ?u ''x''))).
        \<not> (isdigit c \<or> c = CHR ''+'' \<or> c = CHR ''-'' \<or> c = CHR ''_'' \<or> int_isspace c)"
      unfolding tx using nx by simp
    from s [THEN conjunct2, THEN conjunct2, THEN conjunct2, THEN mp, OF this]
    have "count item = 1" .
    with h show ?thesis by (intro exI [of _ item] conjI) (rule conjunct1)
  qed
  have 4: "\<exists>item. extract_item_details bare_img_element = Inr item \<and> count item = 1"
  proof -
    from extract_item_details_count [of bare_img_element, THEN conjunct1]
    obtain item where h: "?P bare_img_element item" ..
    from h [THEN conjunct2, THEN conjunct1, THEN mp, OF pb] have "count item = 1" .
    with h show ?thesis by (intro exI [of _ item] conjI) (rule conjunct1)
  qed
  have 5: "\<exists>item. extract_item_details unbadged_img_element = Inr item \<and> count item = 1"
  proof -
    from extract_item_details_count [of unbadged_img_element, THEN conjunct1]
    obtain item where h: "?P unbadged_img_element item" ..
    from h have b: "?B unbadged_img_element item" by (rule conjunct2 [THEN conjunct2])
    from b [THEN spec, THEN mp, OF pu, THEN conjunct1, THEN mp, OF bu] have "count item = 1" .
    with h show ?thesis by (intro exI [of _ item] conjI) (rule conjunct1)
  qed
  from pu bu have 6: "\<exists>p. find_parent ?R unbadged_img_element = Some p \<and> find_tag ?A p = None"
    by (intro exI conjI)
  from 1 badge_find_parent [of ?u "''3''"] badge_find_tag [of ?u "''3''"] t3 l3 2 tl ll 3 tx px nx
    4 pb 5 6
  show ?thesis by (intro conjI)
qed

text \<open>
  C8, as stated, fails: the count is whatever \<open>int\<close> returns on the badge text, and
  \<open>int\<close> accepts \<open>0\<close> and signed numerals. An image whose badge reads \<open>0\<close> becomes an
  item with count 0, also at the end of the whole extraction.
\<close>

theorem extract_item_details_count_zero:
  "extract_item_details (badge_img_element ''//cdn/boots.png'' ''0'')
     = Inr \<lparr>name = ''Boots'', image_url = ''//cdn/boots.png'', count = 0, image_data = None\<rparr>
   \<and> extract_table_by_header page_zero_badge ''Core Builds''
     = Inr [\<lparr>items = [\<lparr>name = ''Boots'', image_url = ''//cdn/boots.png'', count = 0,
                          image_data = None\<rparr>],
             win_rate = ''55.1%'', pick_rate = ''12.5%'', games = ''1,024''\<rparr>]"
proof -
  have a: "extract_item_details (badge_img_element ''//cdn/boots.png'' ''0'')
     = Inr \<lparr>name = ''Boots'', image_url = ''//cdn/boots.png'', count = 0, image_data = None\<rparr>"
    by code_simp
  have b: "extract_table_by_header page_zero_badge ''Core Builds''
     = Inr [\<lparr>items = [\<lparr>name = ''Boots'', image_url = ''//cdn/boots.png'', count = 0,
                          image_data = None\<rparr>],
             win_rate = ''55.1%'', pick_rate = ''12.5%'', games = ''1,024''\<rparr>]"
    by code_simp
  from a b show ?thesis by (rule conjI)
qed

text \<open>
  C8, amended: every item that \<open>_extract_item_details\<close> builds has an integer count,
  which is 1 when the image has no badge (no \<open>relative\<close> container, or no \<open>absolute\<close>
  badge in it) and when \<open>int\<close> rejects the badge text. When \<open>int\<close> reads the integer
  \<open>k\<close> from the badge text, the count is \<open>k\<close>, whatever its sign: \<open>0\<close> gives 0 and \<open>-2\<close>
  gives -2. So the count is positive unless the badge text itself denotes an integer
  that is zero or negative, and then the count is that integer.
\<close>

theorem extract_item_details_count_positive_unless_parsed:
  "(\<exists>item. extract_item_details img = Inr item \<and>
      (find_parent (named_class ''div'' ''relative'') img = None \<longrightarrow> count item = 1) \<and>
      (\<forall>p. find_parent (named_class ''div'' ''relative'') img = Some p \<longrightarrow>
         (find_tag (named_class ''div'' ''absolute'') p = None \<longrightarrow> count item = 1) \<and>
         (\<forall>b. find_tag (named_class ''div'' ''absolute'') p = Some b \<longrightarrow>
            (\<forall>k. py_int (get_text_strip (snd b)) = Inr k \<longrightarrow> count item = k) \<and>
            (py_int (get_text_strip (snd b)) = Inl ValueError \<longrightarrow> count item = 1))) \<and>
      (0 < count item \<or>
       (\<exists>p b. find_parent (named_class ''div'' ''relative'') img = Some p \<and>
              find_tag (named_class ''div'' ''absolute'') p = Some b \<and>
              py_int (get_text_strip (snd b)) = Inr (count item) \<and> count item \<le> 0)))
   \<and> py_int ''0'' = Inr 0 \<and> py_int ''-2'' = Inr (- 2)"
  (is "(\<exists>item. ?P item) \<and> ?Z \<and> ?N")
proof -
  let ?R = "named_class ''div'' ''relative''" and ?A = "named_class ''div'' ''absolute''"
  obtain item where item: "extract_item_details img = Inr item"
    using extract_item_details_total by blast
  then have cnt: "extract_count img = Inr (count item)"
    by (rule extract_item_details_count_eq)
  have a: "find_parent ?R img = None \<longrightarrow> count item = 1"
    using cnt extract_count_no_container [of img] by auto
  have b: "\<forall>p. find_parent ?R img = Some p \<longrightarrow>
         (find_tag ?A p = None \<longrightarrow> count item = 1) \<and>
         (\<forall>b. find_tag ?A p = Some b \<longrightarrow>
            (\<forall>k. py_int (get_text_strip (snd b)) = Inr k \<longrightarrow> count item = k) \<and>
            (py_int (get_text_strip (snd b)) = Inl ValueError \<longrightarrow> count item = 1))"
  proof (intro allI impI conjI)
    fix p
    assume p: "find_parent ?R img = Some p"
    {
      assume "find_tag ?A p = None"
      with p cnt show "count item = 1" using extract_count_no_badge [of img p] by simp
    }
    fix b
    assume b: "find_tag ?A p = Some b"
    note eq = extract_count_badge [OF p b]
    {
      fix k
      assume "py_int (get_text_strip (snd b)) = Inr k"
      with eq cnt show "count item = k" by simp
    }
    {
      assume "py_int (get_text_strip (snd b)) = Inl ValueError"
      with eq cnt show "count item = 1" by simp
    }
  qed
  have c: "0 < count item \<or>
       (\<exists>p b. find_parent ?R img = Some p \<and> find_tag ?A p = Some b \<and>
              py_int (get_text_strip (snd b)) = Inr (count item) \<and> count item \<le> 0)"
  proof (cases "find_parent ?R img")
    case None
    with a show ?thesis by simp
  next
    case (Some p)
    show ?thesis
    proof (cases "find_tag ?A p")
      case None
      with Some b show ?thesis by simp
    next
      case (Some bd)
      note eq = extract_count_badge [OF \<open>find_parent ?R img = Some p\<close> Some]
      show ?thesis
      proof (cases "py_int (get_text_strip (snd bd))")
        case (Inl x)
        with eq cnt show ?thesis by simp
      next
        case (Inr k)
        with eq cnt have "count item = k" by simp
        show ?thesis
        proof (cases "0 < k")
          case True
          with \<open>count item = k\<close> show ?thesis by simp
        next
          case False
          with \<open>count item = k\<close> Inr Some \<open>find_parent ?R img = Some p\<close>
          have "find_parent ?R img = Some p \<and> find_tag ?A p = Some bd \<and>
              py_int (get_text_strip (snd bd)) = Inr (count item) \<and> count item \<le> 0"
            by simp
          then show ?thesis by blast
        qed
      qed
    qed
  qed
  from item a b c have "?P item" by (intro conjI)
  then have m: "\<exists>item. ?P item" by (rule exI [of ?P item])
  have z: ?Z by code_simp
  have n: ?N by code_simp
  from m z n show ?thesis by (intro conjI)
qed

theorem extract_item_details_count_positive_unless_parsed_witness:
  "(\<exists>item. extract_item_details bare_img_element = Inr item \<and> count item = 1)
   \<and> find_parent (named_class ''div'' ''relative'') bare_img_element = None
   \<and> (\<exists>item. extract_item_details unbadged_img_element = Inr item \<and> count item = 1)
   \<and> (\<exists>p. find_parent (named_class ''div'' ''relative'') unbadged_img_element = Some p
        \<and> find_tag (named_class ''div'' ''absolute'') p = None)
   \<and> (\<exists>item. extract_item_details (badge_img_element ''//cdn/boots.png'' '' 3 '') = Inr item
         \<and> count item = 3)
   \<and> py_int (get_text_strip (snd (badge_div_element ''//cdn/boots.png'' '' 3 ''))) = Inr 3
   \<and> (\<exists>item. extract_item_details (badge_img_element ''//cdn/boots.png'' ''0'') = Inr item
         \<and> count item = 0)
   \<and> py_int (get_text_strip (snd (badge_div_element ''//cdn/boots.png'' ''0''))) = Inr 0
   \<and> (\<exists>item. extract_item_details (badge_img_element ''//cdn/boots.png'' ''-2'') = Inr item
         \<and> count item = - 2)
   \<and> py_int (get_text_strip (snd (badge_div_element ''//cdn/boots.png'' ''-2''))) = Inr (- 2)
   \<and> (\<exists>item. extract_item_details (badge_img_element ''//cdn/boots.png'' ''x'') = Inr item
         \<and> count item = 1)
   \<and> py_int (get_text_strip (snd (badge_div_element ''//cdn/boots.png'' ''x''))) = Inl ValueError"
proof -
  let ?R = "named_class ''div'' ''relative''" and ?A = "named_class ''div'' ''absolute''"
  let ?u = "''//cdn/boots.png''"
  let ?B = "\<lambda>img item. \<forall>p. find_parent ?R img = Some p \<longrightarrow>
         (find_tag ?A p = None \<longrightarrow> count item = 1) \<and>
         (\<forall>b. find_tag ?A p = Some b \<longrightarrow>
            (\<forall>k. py_int (get_text_strip (snd b)) = Inr k \<longrightarrow> count item = k) \<and>
            (py_int (get_text_strip (snd b)) = Inl ValueError \<longrightarrow> count item = 1))"
  let ?P = "\<lambda>img item. extract_item_details img = Inr item \<and>
      (find_parent ?R img = None \<longrightarrow> count item = 1) \<and> ?B img item \<and>
      (0 < count item \<or>
       (\<exists>p b. find_parent ?R img = Some p \<and> find_tag ?A p = Some b \<and>
              py_int (get_text_strip (snd b)) = Inr (count item) \<and> count item \<le> 0))"
  note T = extract_item_details_count_positive_unless_parsed [THEN conjunct1]
  have pb: "find_parent ?R bare_img_element = None" by code_simp
  have pu: "find_parent ?R unbadged_img_element
       = Some ([], Tag ''div'' [] [''relative''] [badge_img ''a.png''])" by code_simp
  have bu: "find_tag ?A ([], Tag ''div'' [] [''relative''] [badge_img ''a.png'']) = None"
    by code_simp
  have t3: "py_int (get_text_strip (snd (badge_div_element ?u '' 3 ''))) = Inr 3" by code_simp
  have t0: "py_int (get_text_strip (snd (badge_div_element ?u ''0''))) = Inr 0" by code_simp
  have t2: "py_int (get_text_strip (snd (badge_div_element ?u ''-2''))) = Inr (- 2)" by code_simp
  have tx: "py_int (get_text_strip (snd (badge_div_element ?u ''x''))) = Inl ValueError"
    by code_simp
  have parsed: "\<exists>item. extract_item_details (badge_img_element ?u t) = Inr item \<and> count item = k"
    if "py_int (get_text_strip (snd (badge_div_element ?u t))) = Inr k" for t k
  proof -
    from T [of "badge_img_element ?u t"]
    obtain item where h: "?P (badge_img_element ?u t) item" ..
    from h have b: "?B (badge_img_element ?u t) item"
      by (rule conjunct2 [THEN conjunct2, THEN conjunct1])
    note s = b [THEN spec, THEN mp, OF badge_find_parent, THEN conjunct2, THEN spec, THEN mp,
        OF badge_find_tag]
    from s [THEN conjunct1, THEN spec, THEN mp, OF that] have "count item = k" .
    with h show ?thesis by (intro exI [of _ item] conjI) (rule conjunct1)
  qed
  have 1: "\<exists>item. extract_item_details bare_img_element = Inr item \<and> count item = 1"
  proof -
    from T [of bare_img_element] obtain item where h: "?P bare_img_element item" ..
    from h [THEN conjunct2, THEN conjunct1, THEN mp, OF pb] have "count item = 1" .
    with h show ?thesis by (intro exI [of _ item] conjI) (rule conjunct1)
  qed
  have 2: "\<exists>item. extract_item_details unbadged_img_element = Inr item \<and> count item = 1"
  proof -
    from T [of unbadged_img_element] obtain item where h: "?P unbadged_img_element item" ..
    from h have b: "?B unbadged_img_element item"
      by (rule conjunct2 [THEN conjunct2, THEN conjunct1])
    from b [THEN spec, THEN mp, OF pu, THEN conjunct1, THEN mp, OF bu] have "count item = 1" .
    with h show ?thesis by (intro exI [of _ item] conjI) (rule conjunct1)
  qed
  from pu bu have 3: "\<exists>p. find_parent ?R unbadged_img_element = Some p \<and> find_tag ?A p = None"
    by (intro exI conjI)
  have 4: "\<exists>item. extract_item_details (badge_img_element ?u ''x'') = Inr item \<and> count item = 1"
  proof -
    from T [of "badge_img_element ?u ''x''"]
    obtain item where h: "?P (badge_img_element ?u ''x'') item" ..
    from h have b: "?B (badge_img_element ?u ''x'') item"
      by (rule conjunct2 [THEN conjunct2, THEN conjunct1])
    note s = b [THEN spec, THEN mp, OF badge_find_parent, THEN conjunct2, THEN spec, THEN mp,
        OF badge_find_tag]
    from s [THEN conjunct2, THEN mp, OF tx] have "count item = 1" .
    with h show ?thesis by (intro exI [of _ item] conjI) (rule conjunct1)
  qed
  from 1 pb 2 3 parsed [OF t3] t3 parsed [OF t0] t0 parsed [OF t2] t2 4 tx
  show ?thesis by (intro conjI)
qed

subsection \<open>Rows\<close>

lemma text_or_na_None: "find_tag (named nm) x = None \<Longrightarrow> text_or_na nm x = ''N/A''"
  by (simp add: text_or_na_def)

lemma row_body_Some_iff:
  "(\<exists>b. row_body r = Inr (Some b)) \<longleftrightarrow> 3 \<le> length (find_all (named ''td'') r)"
proof (cases "length (find_all (named ''td'') r) < 3")
  case True
  then show ?thesis by (simp add: row_body_short)
next
  case False
  then have "3 \<le> length (find_all (named ''td'') r)" by simp
  then show ?thesis by (simp add: row_body_long)
qed

lemma rows_loop_length:
  "length (List.map_filter (\<lambda>r. case row_body r of Inr ob \<Rightarrow> ob | Inl e \<Rightarrow> None) rows)
     = length (filter (\<lambda>r. 3 \<le> length (find_all (named ''td'') r)) rows)"
proof (induction rows)
  case Nil
  then show ?case by simp
next
  case (Cons r rows)
  show ?case
  proof (cases "length (find_all (named ''td'') r) < 3")
    case True
    with Cons show ?thesis by (simp add: row_body_short)
  next
    case False
    then have "3 \<le> length (find_all (named ''td'') r)" by simp
    with Cons show ?thesis by (simp add: row_body_long)
  qed
qed

text \<open>
  C2: a row with fewer than three \<open>td\<close> cells yields no \<open>BuildRow\<close> and no exception
  (the loop goes on); a row with three or more yields exactly one, and where the
  \<open>strong\<close> or \<open>span\<close> element of a statistic is absent, pick rate, games and win rate
  are the string \<open>N/A\<close>. The loop returns, in order, one \<open>BuildRow\<close> for each row with
  at least three cells and nothing for the others.
\<close>

theorem row_body_cells:
  "(length (find_all (named ''td'') row) < 3 \<longrightarrow> row_body row = Inr None) \<and>
   (3 \<le> length (find_all (named ''td'') row) \<longrightarrow>
      (\<exists>b. row_body row = Inr (Some b) \<and>
         (find_tag (named ''strong'') (find_all (named ''td'') row ! 1) = None \<longrightarrow> pick_rate b = ''N/A'') \<and>
         (find_tag (named ''span'') (find_all (named ''td'') row ! 1) = None \<longrightarrow> games b = ''N/A'') \<and>
         (find_tag (named ''strong'') (find_all (named ''td'') row ! 2) = None \<longrightarrow> win_rate b = ''N/A''))) \<and>
   rows_loop rows data =
     Inr (data @ List.map_filter (\<lambda>r. case row_body r of Inr ob \<Rightarrow> ob | Inl e \<Rightarrow> None) rows) \<and>
   (\<exists>out. rows_loop rows [] = Inr out \<and>
      length out = length (filter (\<lambda>r. 3 \<le> length (find_all (named ''td'') r)) rows))"
  (is "?S \<and> ?L \<and> ?E \<and> ?N")
proof -
  have s: ?S by (simp add: row_body_short)
  have l: ?L
  proof
    assume "3 \<le> length (find_all (named ''td'') row)"
    then show "\<exists>b. row_body row = Inr (Some b) \<and>
         (find_tag (named ''strong'') (find_all (named ''td'') row ! 1) = None \<longrightarrow> pick_rate b = ''N/A'') \<and>
         (find_tag (named ''span'') (find_all (named ''td'') row ! 1) = None \<longrightarrow> games b = ''N/A'') \<and>
         (find_tag (named ''strong'') (find_all (named ''td'') row ! 2) = None \<longrightarrow> win_rate b = ''N/A'')"
      by (simp add: row_body_long text_or_na_None)
  qed
  have e: ?E by (rule rows_loop_eq)
  have n: ?N by (simp add: rows_loop_eq rows_loop_length)
  from s l e n show ?thesis by (intro conjI)
qed

theorem row_body_cells_witness:
  "length (find_all (named ''td'')
      (row_element ''Core Builds Overview'' [full_row, short_row, bare_row] short_row)) < 3
   \<and> row_body (row_element ''Core Builds Overview'' [full_row, short_row, bare_row] short_row)
       = Inr None
   \<and> 3 \<le> length (find_all (named ''td'')
      (row_element ''Core Builds Overview'' [full_row, short_row, bare_row] bare_row))
   \<and> find_tag (named ''strong'') (find_all (named ''td'')
      (row_element ''Core Builds Overview'' [full_row, short_row, bare_row] bare_row) ! 1) = None
   \<and> find_tag (named ''span'') (find_all (named ''td'')
      (row_element ''Core Builds Overview'' [full_row, short_row, bare_row] bare_row) ! 1) = None
   \<and> find_tag (named ''strong'') (find_all (named ''td'')
      (row_element ''Core Builds Overview'' [full_row, short_row, bare_row] bare_row) ! 2) = None
   \<and> (\<exists>b. row_body (row_element ''Core Builds Overview'' [full_row, short_row, bare_row] bare_row)
            = Inr (Some b)
          \<and> pick_rate b = ''N/A'' \<and> games b = ''N/A'' \<and> win_rate b = ''N/A'')
   \<and> (\<exists>out. rows_loop (map (row_element ''Core Builds Overview'' [full_row, short_row, bare_row])
                  [full_row, short_row, bare_row]) [] = Inr out \<and> length out = 2)"
proof -
  let ?el = "row_element ''Core Builds Overview'' [full_row, short_row, bare_row]"
  let ?td = "find_all (named ''td'')"
  have h1: "length (?td (?el short_row)) < 3" by code_simp
  have h2: "3 \<le> length (?td (?el bare_row))" by code_simp
  have h3: "find_tag (named ''strong'') (?td (?el bare_row) ! 1) = None" by code_simp
  have h4: "find_tag (named ''span'') (?td (?el bare_row) ! 1) = None" by code_simp
  have h5: "find_tag (named ''strong'') (?td (?el bare_row) ! 2) = None" by code_simp
  have h6: "length (filter (\<lambda>r. 3 \<le> length (?td r)) (map ?el [full_row, short_row, bare_row])) = 2"
    by code_simp
  note thm_short = row_body_cells [of "?el short_row"]
  have c1: "row_body (?el short_row) = Inr None"
    using thm_short [THEN conjunct1, THEN mp, OF h1] .
  note thm_bare = row_body_cells [of "?el bare_row" "map ?el [full_row, short_row, bare_row]"]
  from thm_bare [THEN conjunct2, THEN conjunct1, THEN mp, OF h2] h3 h4 h5
  have c2: "\<exists>b. row_body (?el bare_row) = Inr (Some b)
          \<and> pick_rate b = ''N/A'' \<and> games b = ''N/A'' \<and> win_rate b = ''N/A''"
    by auto
  from thm_bare [THEN conjunct2, THEN conjunct2, THEN conjunct2] h6
  have c3: "\<exists>out. rows_loop (map ?el [full_row, short_row, bare_row]) [] = Inr out \<and> length out = 2"
    by auto
  from h1 c1 h2 h3 h4 h5 c2 c3 show ?thesis by (intro conjI)
qed

subsection \<open>Image sources\<close>

lemma row_body_Some_items:
  assumes "row_body r = Inr (Some b)"
  shows "\<forall>item\<in>set (items b). image_url item \<noteq> [] \<and> image_data item = None"
proof -
  from assms have "3 \<le> length (find_all (named ''td'') r)"
    using row_body_Some_iff [of r] by blast
  from row_body_long [OF this] assms
  have it: "items b = map (\<lambda>x. projr (extract_item_details x))
                    (filter has_src (find_all (named ''img'') (find_all (named ''td'') r ! 0)))"
    by simp
  show ?thesis
  proof
    fix item
    assume "item \<in> set (items b)"
    with it obtain x where x: "has_src x" and item: "item = projr (extract_item_details x)"
      by auto
    from extract_item_details_total [of x] item
    have "image_url item = get_attr (snd x) ''src'' []" "image_data item = None" by auto
    with has_src_get_attr [OF x] show "image_url item \<noteq> [] \<and> image_data item = None" by simp
  qed
qed

lemma rows_loop_member:
  assumes "rows_loop rows [] = Inr out" and "b \<in> set out"
  shows "\<exists>r\<in>set rows. row_body r = Inr (Some b)"
proof -
  from assms have "b \<in> set (List.map_filter (\<lambda>r. case row_body r of Inr ob \<Rightarrow> ob | Inl e \<Rightarrow> None) rows)"
    by (simp add: rows_loop_eq)
  then obtain r where "r \<in> set rows" "(case row_body r of Inr ob \<Rightarrow> ob | Inl e \<Rightarrow> None) = Some b"
    by (auto simp: List.map_filter_def)
  then show ?thesis by (auto split: sum.splits)
qed

lemma extract_table_by_header_member:
  assumes "extract_table_by_header sp h = Inr out" and "b \<in> set out"
  shows "\<exists>r. row_body r = Inr (Some b)"
proof -
  from assms obtain rows where "rows_loop rows [] = Inr out"
    by (auto simp: extract_table_by_header_def split: option.splits)
  from rows_loop_member [OF this assms(2)] show ?thesis by blast
qed

lemma extract_table_by_header_items:
  assumes "extract_table_by_header sp h = Inr out" and "b \<in> set out"
  shows "\<forall>item\<in>set (items b). image_url item \<noteq> [] \<and> image_data item = None"
proof -
  from extract_table_by_header_member [OF assms] obtain r where "row_body r = Inr (Some b)" ..
  then show ?thesis by (rule row_body_Some_items)
qed

subsection \<open>Finding the heading\<close>

lemma first_of_filter:
  "(case filter P xs of [] \<Rightarrow> None | d # ds \<Rightarrow> Some d) = List.find P xs"
  by (induction xs) auto

lemma soup_find_eq: "soup_find P sp = List.find (\<lambda>d. P (snd d)) (descendants_list [] sp)"
  by (simp add: soup_find_def first_of_filter)

lemma soup_find_None_iff:
  "soup_find P sp = None \<longleftrightarrow> (\<forall>e\<in>set (descendants_list [] sp). \<not> P (snd e))"
  by (auto simp: soup_find_eq find_None_iff)

lemma soup_find_first:
  assumes "i < length (descendants_list [] sp)"
    and "P (snd (descendants_list [] sp ! i))"
    and "\<forall>j<i. \<not> P (snd (descendants_list [] sp ! j))"
  shows "soup_find P sp = Some (descendants_list [] sp ! i)"
  unfolding soup_find_eq find_Some_iff using assms by blast

subsection \<open>Prefetching keeps the rows\<close>

lemma prefetch_items_without:
  "map (\<lambda>item. item\<lparr>image_data := None\<rparr>) (fst (prefetch_items get w its))
     = map (\<lambda>item. item\<lparr>image_data := None\<rparr>) its"
  by (induction its arbitrary: w) (simp_all add: Let_def split_beta)

lemma prefetch_rows_without:
  "map without_images (fst (prefetch_rows get w rows)) = map without_images rows"
  by (induction rows arbitrary: w)
    (simp_all add: Let_def split_beta without_images_def prefetch_items_without)

lemma prefetch_results_without:
  "map (\<lambda>(c, rows). (c, map without_images rows)) (fst (prefetch_results get w res))
     = map (\<lambda>(c, rows). (c, map without_images rows)) res"
proof (induction res arbitrary: w)
  case Nil
  then show ?case by simp
next
  case (Cons a res)
  obtain c rows where a: "a = (c, rows)" by (cases a)
  show ?case
    using Cons.IH [of "snd (prefetch_rows get w rows)"] unfolding a
    by (simp add: Let_def split_beta prefetch_rows_without)
qed

lemma without_images_extracted:
  assumes "extract_table_by_header sp h = Inr out"
  shows "map without_images out = out"
proof -
  have "without_images b = b" if "b \<in> set out" for b
  proof -
    from extract_table_by_header_items [OF assms that]
    have "map (\<lambda>item. item\<lparr>image_data := None\<rparr>) (items b) = items b"
      by (simp add: map_idI)
    then show ?thesis by (simp add: without_images_def)
  qed
  then show ?thesis by (simp add: map_idI)
qed

lemma get_all_data_eq:
  assumes "extract_table_by_header sp ''Core Builds'' = Inr core"
    and "extract_table_by_header sp ''Starter Items'' = Inr starter"
    and "extract_table_by_header sp ''Boots'' = Inr boots"
    and "extract_table_by_header sp ''Skill'' = Inr skills"
  shows "get_all_data get w sp =
     (Inr (fst (prefetch_results get w
               [(''Core Builds'', core), (''Starter Items'', starter),
                (''Boots'', boots), (''Skills'', skills)])),
      snd (prefetch_results get w
               [(''Core Builds'', core), (''Starter Items'', starter),
                (''Boots'', boots), (''Skills'', skills)]))"
  using assms by (simp add: get_all_data_def Let_def split_beta del: prefetch_results.simps)

lemma map_of_without_images:
  "map_of (map (\<lambda>(c, rows). (c, map without_images rows)) res) c = Some [] \<Longrightarrow>
   map_of res c = Some []"
  by (induction res) (auto split: if_splits)

text \<open>
  C6: \<open>get_all_data\<close> returns a dictionary with the four keys \<open>Core Builds\<close>,
  \<open>Starter Items\<close>, \<open>Boots\<close> and \<open>Skills\<close>, in this order; the rows under each key are
  the rows the extractor returns for the document and the labels \<open>Core Builds\<close>,
  \<open>Starter Items\<close>, \<open>Boots\<close> and \<open>Skill\<close>, with nothing changed but the image bytes
  assigned afterwards. On a document where no \<open>th\<close> tag has a text containing \<open>boots\<close>
  (in any case) the \<open>Boots\<close> key maps to the empty list, and the other three are as
  just said.
\<close>

theorem get_all_data_categories:
  "\<exists>core starter boots skills res w'.
     extract_table_by_header sp ''Core Builds'' = Inr core \<and>
     extract_table_by_header sp ''Starter Items'' = Inr starter \<and>
     extract_table_by_header sp ''Boots'' = Inr boots \<and>
     extract_table_by_header sp ''Skill'' = Inr skills \<and>
     get_all_data get w sp = (Inr res, w') \<and>
     map (\<lambda>(c, rows). (c, map without_images rows)) res =
       [(''Core Builds'', core), (''Starter Items'', starter), (''Boots'', boots),
        (''Skills'', skills)] \<and>
     ((\<forall>e\<in>set (descendants_list [] sp). \<not> header_matches ''Boots'' (snd e)) \<longrightarrow>
        boots = [] \<and> map_of res ''Boots'' = Some [])"
  (is "\<exists>core starter boots skills res w'. ?P core starter boots skills res w'")
proof -
  obtain core where core: "extract_table_by_header sp ''Core Builds'' = Inr core"
    using extract_table_by_header_total by blast
  obtain starter where starter: "extract_table_by_header sp ''Starter Items'' = Inr starter"
    using extract_table_by_header_total by blast
  obtain boots where boots: "extract_table_by_header sp ''Boots'' = Inr boots"
    using extract_table_by_header_total by blast
  obtain skills where skills: "extract_table_by_header sp ''Skill'' = Inr skills"
    using extract_table_by_header_total by blast
  let ?res0 = "[(''Core Builds'', core), (''Starter Items'', starter), (''Boots'', boots),
        (''Skills'', skills)]"
  define res where "res = fst (prefetch_results get w ?res0)"
  define w' where "w' = snd (prefetch_results get w ?res0)"
  have g: "get_all_data get w sp = (Inr res, w')"
    unfolding res_def w'_def by (rule get_all_data_eq [OF core starter boots skills])
  have "map (\<lambda>(c, rows). (c, map without_images rows)) res
          = map (\<lambda>(c, rows). (c, map without_images rows)) ?res0"
    unfolding res_def by (rule prefetch_results_without)
  also have "\<dots> = ?res0"
    by (simp add: without_images_extracted [OF core] without_images_extracted [OF starter]
        without_images_extracted [OF boots] without_images_extracted [OF skills])
  finally have m: "map (\<lambda>(c, rows). (c, map without_images rows)) res = ?res0" .
  have b: "(\<forall>e\<in>set (descendants_list [] sp). \<not> header_matches ''Boots'' (snd e)) \<longrightarrow>
        boots = [] \<and> map_of res ''Boots'' = Some []"
  proof
    assume "\<forall>e\<in>set (descendants_list [] sp). \<not> header_matches ''Boots'' (snd e)"
    then have "soup_find (header_matches ''Boots'') sp = None"
      by (simp add: soup_find_None_iff)
    with boots have e: "boots = []" by (simp add: extract_table_by_header_def)
    with m have "map_of (map (\<lambda>(c, rows). (c, map without_images rows)) res) ''Boots'' = Some []"
      by simp
    then have "map_of res ''Boots'' = Some []" by (rule map_of_without_images)
    with e show "boots = [] \<and> map_of res ''Boots'' = Some []" by simp
  qed
  from core starter boots skills g m b have "?P core starter boots skills res w'"
    by (intro conjI)
  then have "\<exists>w'. ?P core starter boots skills res w'"
    by (rule exI [of "?P core starter boots skills res" w'])
  then have "\<exists>res w'. ?P core starter boots skills res w'"
    by (rule exI [of "\<lambda>res. \<exists>w'. ?P core starter boots skills res w'" res])
  then have "\<exists>skills res w'. ?P core starter boots skills res w'"
    by (rule exI [of "\<lambda>skills. \<exists>res w'. ?P core starter boots skills res w'" skills])
  then have "\<exists>boots skills res w'. ?P core starter boots skills res w'"
    by (rule exI [of "\<lambda>boots. \<exists>skills res w'. ?P core starter boots skills res w'" boots])
  then have "\<exists>starter boots skills res w'. ?P core starter boots skills res w'"
    by (rule exI [of "\<lambda>starter. \<exists>boots skills res w'. ?P core starter boots skills res w'" starter])
  then show ?thesis
    by (rule exI [of "\<lambda>core. \<exists>starter boots skills res w'. ?P core starter boots skills res w'" core])
qed

theorem get_all_data_categories_witness:
  "\<not> (\<exists>e\<in>set (descendants_list [] page_without_boots). header_matches ''Boots'' (snd e))
   \<and> (\<exists>res w'. get_all_data (status_session 200) 0 page_without_boots = (Inr res, w')
         \<and> map_of res ''Boots'' = Some []
         \<and> map (\<lambda>(c, rows). (c, map without_images rows)) res =
             [(''Core Builds'', [full_build_row, bare_build_row]),
              (''Starter Items'', [full_build_row]), (''Boots'', []),
              (''Skills'', [bare_build_row])])"
proof -
  have hb: "\<forall>e\<in>set (descendants_list [] page_without_boots). \<not> header_matches ''Boots'' (snd e)"
    by code_simp
  have e1: "extract_table_by_header page_without_boots ''Core Builds''
              = Inr [full_build_row, bare_build_row]" by code_simp
  have e2: "extract_table_by_header page_without_boots ''Starter Items'' = Inr [full_build_row]"
    by code_simp
  have e4: "extract_table_by_header page_without_boots ''Skill'' = Inr [bare_build_row]"
    by code_simp
  let ?P = "\<lambda>core starter boots skills res w'.
     extract_table_by_header page_without_boots ''Core Builds'' = Inr core \<and>
     extract_table_by_header page_without_boots ''Starter Items'' = Inr starter \<and>
     extract_table_by_header page_without_boots ''Boots'' = Inr boots \<and>
     extract_table_by_header page_without_boots ''Skill'' = Inr skills \<and>
     get_all_data (status_session 200) 0 page_without_boots = (Inr res, w') \<and>
     map (\<lambda>(c, rows). (c, map without_images rows)) res =
       [(''Core Builds'', core), (''Starter Items'', starter), (''Boots'', boots),
        (''Skills'', skills)] \<and>
     ((\<forall>e\<in>set (descendants_list [] page_without_boots). \<not> header_matches ''Boots'' (snd e)) \<longrightarrow>
        boots = [] \<and> map_of res ''Boots'' = Some [])"
  from get_all_data_categories [of page_without_boots "status_session 200" 0]
  obtain core starter boots skills res w' where p: "?P core starter boots skills res w'"
    by (elim exE) (rule that)
  from p e1 have c: "core = [full_build_row, bare_build_row]" by simp
  from p e2 have s: "starter = [full_build_row]" by simp
  from p e4 have k: "skills = [bare_build_row]" by simp
  from p hb have b: "boots = []" "map_of res ''Boots'' = Some []" by simp_all
  from p have g: "get_all_data (status_session 200) 0 page_without_boots = (Inr res, w')"
    by simp
  from p c s k b have m: "map (\<lambda>(c, rows). (c, map without_images rows)) res =
             [(''Core Builds'', [full_build_row, bare_build_row]),
              (''Starter Items'', [full_build_row]), (''Boots'', []),
              (''Skills'', [bare_build_row])]" by simp
  from g b(2) m have "\<exists>res w'. get_all_data (status_session 200) 0 page_without_boots = (Inr res, w')
         \<and> map_of res ''Boots'' = Some []
         \<and> map (\<lambda>(c, rows). (c, map without_images rows)) res =
             [(''Core Builds'', [full_build_row, bare_build_row]),
              (''Starter Items'', [full_build_row]), (''Boots'', []),
              (''Skills'', [bare_build_row])]"
    by (intro exI conjI)
  with hb show ?thesis by simp
qed

lemma get_all_data_returns:
  "\<exists>res w' core starter boots skills.
     get_all_data get w sp = (Inr res, w') \<and>
     extract_table_by_header sp ''Core Builds'' = Inr core \<and>
     extract_table_by_header sp ''Starter Items'' = Inr starter \<and>
     extract_table_by_header sp ''Boots'' = Inr boots \<and>
     extract_table_by_header sp ''Skill'' = Inr skills \<and>
     map (\<lambda>(c, rows). (c, map without_images rows)) res =
       [(''Core Builds'', core), (''Starter Items'', starter), (''Boots'', boots),
        (''Skills'', skills)]"
proof -
  obtain core where core: "extract_table_by_header sp ''Core Builds'' = Inr core"
    using extract_table_by_header_total by blast
  obtain starter where starter: "extract_table_by_header sp ''Starter Items'' = Inr starter"
    using extract_table_by_header_total by blast
  obtain boots where boots: "extract_table_by_header sp ''Boots'' = Inr boots"
    using extract_table_by_header_total by blast
  obtain skills where skills: "extract_table_by_header sp ''Skill'' = Inr skills"
    using extract_table_by_header_total by blast
  let ?res0 = "[(''Core Builds'', core), (''Starter Items'', starter), (''Boots'', boots),
        (''Skills'', skills)]"
  have "map (\<lambda>(c, rows). (c, map without_images rows)) (fst (prefetch_results get w ?res0))
          = map (\<lambda>(c, rows). (c, map without_images rows)) ?res0"
    by (rule prefetch_results_without)
  also have "\<dots> = ?res0"
    by (simp add: without_images_extracted [OF core] without_images_extracted [OF starter]
        without_images_extracted [OF boots] without_images_extracted [OF skills])
  finally have "map (\<lambda>(c, rows). (c, map without_images rows)) (fst (prefetch_results get w ?res0))
     = ?res0" .
  with get_all_data_eq [OF core starter boots skills, of get w] core starter boots skills
  show ?thesis by (intro exI conjI)
qed

lemma get_all_data_items:
  assumes g: "get_all_data get w sp = (Inr res, w')"
    and cr: "(c, rows) \<in> set res" and b: "b \<in> set rows" and it: "item \<in> set (items b)"
  shows "image_url item \<noteq> []"
proof -
  from get_all_data_returns [of get w sp] g
  obtain core starter boots skills where
    core: "extract_table_by_header sp ''Core Builds'' = Inr core" and
    starter: "extract_table_by_header sp ''Starter Items'' = Inr starter" and
    boots: "extract_table_by_header sp ''Boots'' = Inr boots" and
    skills: "extract_table_by_header sp ''Skill'' = Inr skills" and
    m: "map (\<lambda>(c, rows). (c, map without_images rows)) res =
       [(''Core Builds'', core), (''Starter Items'', starter), (''Boots'', boots),
        (''Skills'', skills)]"
    by auto
  from cr have "(c, map without_images rows)
      \<in> set (map (\<lambda>(c, rows). (c, map without_images rows)) res)"
    by force
  with m have "map without_images rows \<in> {core, starter, boots, skills}" by auto
  then obtain h out where out: "extract_table_by_header sp h = Inr out"
    and eq: "map without_images rows = out"
    using core starter boots skills by auto
  from b eq have "without_images b \<in> set out" by auto
  from extract_table_by_header_items [OF out this]
  have "\<forall>i\<in>set (items (without_images b)). image_url i \<noteq> []" by simp
  moreover from it have "item\<lparr>image_data := None\<rparr> \<in> set (items (without_images b))"
    by (simp add: without_images_def)
  ultimately have "image_url (item\<lparr>image_data := None\<rparr>) \<noteq> []" by blast
  then show ?thesis by simp
qed

text \<open>
  C10: every item of every row that \<open>_extract_table_by_header\<close> returns has a non-empty
  image source. The items of a row are built from exactly those images of the first
  cell whose \<open>src\<close> attribute is present and not empty, in order, and each item's source
  is that attribute. So in \<open>get_all_data\<close> the test \<open>if item.image_url\<close> holds for every
  item, also in the dictionary it returns.
\<close>

theorem extracted_items_have_image_source:
  "(\<forall>out. extract_table_by_header sp h = Inr out \<longrightarrow>
      (\<forall>b\<in>set out. \<forall>item\<in>set (items b). image_url item \<noteq> []))
   \<and> (3 \<le> length (find_all (named ''td'') row) \<longrightarrow>
        (\<exists>b. row_body row = Inr (Some b) \<and>
           map image_url (items b) =
             map (\<lambda>img. get_attr (snd img) ''src'' [])
               (filter has_src (find_all (named ''img'') (find_all (named ''td'') row ! 0)))))
   \<and> (has_src img \<longleftrightarrow> (\<exists>v. map_of (attrs (snd img)) ''src'' = Some v \<and> v \<noteq> []))
   \<and> (\<forall>res w'. get_all_data get w sp = (Inr res, w') \<longrightarrow>
        (\<forall>(c, rows)\<in>set res. \<forall>b\<in>set rows. \<forall>item\<in>set (items b). image_url item \<noteq> []))"
  (is "?A \<and> ?B \<and> ?C \<and> ?D")
proof -
  have a: ?A using extract_table_by_header_items by blast
  have b: ?B
  proof
    assume l: "3 \<le> length (find_all (named ''td'') row)"
    have "image_url (projr (extract_item_details x)) = get_attr (snd x) ''src'' []" for x
      using extract_item_details_total [of x] by auto
    then show "\<exists>b. row_body row = Inr (Some b) \<and>
           map image_url (items b) =
             map (\<lambda>img. get_attr (snd img) ''src'' [])
               (filter has_src (find_all (named ''img'') (find_all (named ''td'') row ! 0)))"
      by (simp add: row_body_long [OF l] comp_def)
  qed
  have c: ?C by (auto simp: has_src_def split: option.splits)
  have d: ?D using get_all_data_items [of get w sp] by blast
  from a b c d show ?thesis by (intro conjI)
qed

theorem extracted_items_have_image_source_witness:
  "extract_table_by_header page_without_boots ''Core Builds'' = Inr [full_build_row, bare_build_row]
   \<and> list_all (\<lambda>b. list_all (\<lambda>item. image_url item \<noteq> []) (items b))
        [full_build_row, bare_build_row]
   \<and> 3 \<le> length (find_all (named ''td'')
        (row_element ''Core Builds Overview'' [full_row, short_row, bare_row] bare_row))
   \<and> map (\<lambda>img. map_of (attrs (snd img)) ''src'')
        (find_all (named ''img'') (find_all (named ''td'')
          (row_element ''Core Builds Overview'' [full_row, short_row, bare_row] bare_row) ! 0))
       = [None, Some [], Some ''b.png'']
   \<and> (\<exists>b. row_body (row_element ''Core Builds Overview'' [full_row, short_row, bare_row] bare_row)
            = Inr (Some b) \<and> map image_url (items b) = [''b.png''])
   \<and> (\<exists>res w'. get_all_data (status_session 200) 0 page_without_boots = (Inr res, w')
         \<and> list_all (\<lambda>(c, rows). list_all (\<lambda>b. list_all (\<lambda>item. image_url item \<noteq> [])
               (items b)) rows) res)"
proof -
  let ?el = "row_element ''Core Builds Overview'' [full_row, short_row, bare_row]"
  note T = extracted_items_have_image_source
    [of page_without_boots "''Core Builds''" "?el bare_row" _ "status_session 200" 0]
  have e1: "extract_table_by_header page_without_boots ''Core Builds''
              = Inr [full_build_row, bare_build_row]" by code_simp
  from T [THEN conjunct1, THEN spec, THEN mp, OF e1]
  have c1: "list_all (\<lambda>b. list_all (\<lambda>item. image_url item \<noteq> []) (items b))
        [full_build_row, bare_build_row]"
    by (simp only: list_all_iff)
  have h2: "3 \<le> length (find_all (named ''td'') (?el bare_row))" by code_simp
  have srcs: "map (\<lambda>img. map_of (attrs (snd img)) ''src'')
        (find_all (named ''img'') (find_all (named ''td'') (?el bare_row) ! 0))
       = [None, Some [], Some ''b.png'']" by code_simp
  have ev: "map (\<lambda>img. get_attr (snd img) ''src'' [])
               (filter has_src (find_all (named ''img'') (find_all (named ''td'') (?el bare_row) ! 0)))
             = [''b.png'']" by code_simp
  from T [THEN conjunct2, THEN conjunct1, THEN mp, OF h2] ev
  have c2: "\<exists>b. row_body (?el bare_row) = Inr (Some b) \<and> map image_url (items b) = [''b.png'']"
    by simp
  obtain res w' where g: "get_all_data (status_session 200) 0 page_without_boots = (Inr res, w')"
    using get_all_data_returns [of "status_session 200" 0 page_without_boots] by blast
  from T [THEN conjunct2, THEN conjunct2, THEN conjunct2, THEN spec, THEN spec, THEN mp, OF g]
  have "list_all (\<lambda>(c, rows). list_all (\<lambda>b. list_all (\<lambda>item. image_url item \<noteq> [])
               (items b)) rows) res"
    by (simp only: list_all_iff)
  with g have c3: "\<exists>res w'. get_all_data (status_session 200) 0 page_without_boots = (Inr res, w')
         \<and> list_all (\<lambda>(c, rows). list_all (\<lambda>b. list_all (\<lambda>item. image_url item \<noteq> [])
               (items b)) rows) res"
    by (intro exI conjI)
  from e1 c1 h2 srcs c2 c3 show ?thesis by (intro conjI)
qed

lemma header_matches_iff:
  "header_matches h t \<longleftrightarrow>
     is_tag t \<and> tag_name t = ''th'' \<and> (\<exists>pre suf. lower (get_text t) = pre @ lower h @ suf)"
  by (simp add: header_matches_def named_def py_in_iff)

lemma soup_find_first_take:
  assumes "i < length (descendants_list [] sp)"
    and "P (snd (descendants_list [] sp ! i))"
    and "\<forall>e\<in>set (take i (descendants_list [] sp)). \<not> P (snd e)"
  shows "soup_find P sp = Some (descendants_list [] sp ! i)"
proof -
  have "\<forall>j<i. \<not> P (snd (descendants_list [] sp ! j))"
  proof (intro allI impI)
    fix j
    assume "j < i"
    with assms(1) have "descendants_list [] sp ! j \<in> set (take i (descendants_list [] sp))"
      by (auto simp: in_set_conv_nth intro!: exI [of _ j])
    with assms(3) show "\<not> P (snd (descendants_list [] sp ! j))" by blast
  qed
  with assms(1,2) show ?thesis by (rule soup_find_first [of i sp P])
qed

text \<open>
  C5: the heading the extractor works from is the first \<open>th\<close> tag of the document, in
  document order, whose text contains the header text, both lowercased; \<open>Core Builds\<close>
  is found in \<open>Core Builds Overview\<close>. The result is the empty list, and not an
  exception, when no \<open>th\<close> tag matches, when that first heading has no \<open>table\<close> among
  its ancestors, and when the nearest such table has no \<open>tbody\<close> below it; otherwise it is
  what the loop over the \<open>tr\<close> tags of the first \<open>tbody\<close> of that table returns. Headings
  after the first matching one play no part.
\<close>

theorem extract_table_by_header_first_header:
  "(header_matches h t \<longleftrightarrow>
      is_tag t \<and> tag_name t = ''th'' \<and> (\<exists>pre suf. lower (get_text t) = pre @ lower h @ suf))
   \<and> ((\<forall>e\<in>set (descendants_list [] sp). \<not> header_matches h (snd e)) \<longrightarrow>
        extract_table_by_header sp h = Inr [])
   \<and> (\<forall>i. i < length (descendants_list [] sp) \<and>
          header_matches h (snd (descendants_list [] sp ! i)) \<and>
          (\<forall>e\<in>set (take i (descendants_list [] sp)). \<not> header_matches h (snd e)) \<longrightarrow>
          (find_parent (named ''table'') (descendants_list [] sp ! i) = None \<longrightarrow>
             extract_table_by_header sp h = Inr []) \<and>
          (\<forall>tbl. find_parent (named ''table'') (descendants_list [] sp ! i) = Some tbl \<longrightarrow>
             (find_tag (named ''tbody'') tbl = None \<longrightarrow> extract_table_by_header sp h = Inr []) \<and>
             (\<forall>tb. find_tag (named ''tbody'') tbl = Some tb \<longrightarrow>
                extract_table_by_header sp h = rows_loop (find_all (named ''tr'') tb) [])))
   \<and> (\<exists>out. extract_table_by_header sp h = Inr out)
   \<and> py_in (lower ''Core Builds'') (lower ''Core Builds Overview'')"
  (is "?A \<and> ?B \<and> ?C \<and> ?D \<and> ?E")
proof -
  have a: ?A by (rule header_matches_iff)
  have b: ?B by (simp add: soup_find_None_iff [symmetric] extract_table_by_header_def)
  have c: ?C
  proof (intro allI impI)
    fix i
    assume "i < length (descendants_list [] sp) \<and>
          header_matches h (snd (descendants_list [] sp ! i)) \<and>
          (\<forall>e\<in>set (take i (descendants_list [] sp)). \<not> header_matches h (snd e))"
    then have f: "soup_find (header_matches h) sp = Some (descendants_list [] sp ! i)"
      by (simp add: soup_find_first_take)
    show "(find_parent (named ''table'') (descendants_list [] sp ! i) = None \<longrightarrow>
             extract_table_by_header sp h = Inr []) \<and>
          (\<forall>tbl. find_parent (named ''table'') (descendants_list [] sp ! i) = Some tbl \<longrightarrow>
             (find_tag (named ''tbody'') tbl = None \<longrightarrow> extract_table_by_header sp h = Inr []) \<and>
             (\<forall>tb. find_tag (named ''tbody'') tbl = Some tb \<longrightarrow>
                extract_table_by_header sp h = rows_loop (find_all (named ''tr'') tb) []))"
      by (simp add: extract_table_by_header_def f)
  qed
  have d: ?D by (rule extract_table_by_header_total)
  have e: ?E by code_simp
  from a b c d e show ?thesis by (intro conjI)
qed

theorem extract_table_by_header_first_header_witness:
  "\<not> (\<exists>e\<in>set (descendants_list [] page_without_boots). header_matches ''Boots'' (snd e))
   \<and> extract_table_by_header page_without_boots ''Boots'' = Inr []
   \<and> header_matches ''Core Builds'' (snd (descendants_list [] page_two_headers ! 1))
   \<and> \<not> (\<exists>e\<in>set (take 1 (descendants_list [] page_two_headers)).
           header_matches ''Core Builds'' (snd e))
   \<and> find_parent (named ''table'') (descendants_list [] page_two_headers ! 1) = None
   \<and> header_matches ''Core Builds'' (snd (descendants_list [] page_two_headers ! 5))
   \<and> extract_table_by_header page_two_headers ''Core Builds'' = Inr []
   \<and> header_matches ''core builds'' (snd (descendants_list [] page_no_tbody ! 2))
   \<and> \<not> (\<exists>e\<in>set (take 2 (descendants_list [] page_no_tbody)).
           header_matches ''core builds'' (snd e))
   \<and> find_parent (named ''table'') (descendants_list [] page_no_tbody ! 2)
       = Some ([], hd page_no_tbody)
   \<and> find_tag (named ''tbody'') ([], hd page_no_tbody) = None
   \<and> extract_table_by_header page_no_tbody ''core builds'' = Inr []
   \<and> header_matches ''Core Builds'' (snd (descendants_list [] page_without_boots ! 3))
   \<and> \<not> (\<exists>e\<in>set (take 3 (descendants_list [] page_without_boots)).
           header_matches ''Core Builds'' (snd e))
   \<and> find_parent (named ''table'') (descendants_list [] page_without_boots ! 3)
       = Some ([], hd page_without_boots)
   \<and> find_tag (named ''tbody'') ([], hd page_without_boots)
       = Some ([hd page_without_boots], Tag ''tbody'' [] [] [full_row, short_row, bare_row])
   \<and> extract_table_by_header page_without_boots ''Core Builds''
       = Inr [full_build_row, bare_build_row]"
proof -
  have n0: "\<forall>e\<in>set (descendants_list [] page_without_boots). \<not> header_matches ''Boots'' (snd e)"
    by code_simp
  note r0 = extract_table_by_header_first_header
    [where sp = page_without_boots and h = "''Boots''", THEN conjunct2, THEN conjunct1, THEN mp, OF n0]

  have l1: "1 < length (descendants_list [] page_two_headers)" by code_simp
  have m1: "header_matches ''Core Builds'' (snd (descendants_list [] page_two_headers ! 1))"
    by code_simp
  have n1: "\<forall>e\<in>set (take 1 (descendants_list [] page_two_headers)).
           \<not> header_matches ''Core Builds'' (snd e)" by code_simp
  have p1: "find_parent (named ''table'') (descendants_list [] page_two_headers ! 1) = None"
    by code_simp
  have m1': "header_matches ''Core Builds'' (snd (descendants_list [] page_two_headers ! 5))"
    by code_simp
  note c1 = extract_table_by_header_first_header
    [where sp = page_two_headers and h = "''Core Builds''", THEN conjunct2, THEN conjunct2, THEN conjunct1,
      THEN spec, THEN mp, OF conjI [OF l1 conjI [OF m1 n1]]]
  note r1 = c1 [THEN conjunct1, THEN mp, OF p1]

  have l2: "2 < length (descendants_list [] page_no_tbody)" by code_simp
  have m2: "header_matches ''core builds'' (snd (descendants_list [] page_no_tbody ! 2))"
    by code_simp
  have n2: "\<forall>e\<in>set (take 2 (descendants_list [] page_no_tbody)).
           \<not> header_matches ''core builds'' (snd e)" by code_simp
  have p2: "find_parent (named ''table'') (descendants_list [] page_no_tbody ! 2)
       = Some ([], hd page_no_tbody)" by code_simp
  have b2: "find_tag (named ''tbody'') ([], hd page_no_tbody) = None" by code_simp
  note c2 = extract_table_by_header_first_header
    [where sp = page_no_tbody and h = "''core builds''", THEN conjunct2, THEN conjunct2, THEN conjunct1,
      THEN spec, THEN mp, OF conjI [OF l2 conjI [OF m2 n2]]]
  note r2 = c2 [THEN conjunct2, THEN spec, THEN mp, OF p2, THEN conjunct1, THEN mp, OF b2]

  have l3: "3 < length (descendants_list [] page_without_boots)" by code_simp
  have m3: "header_matches ''Core Builds'' (snd (descendants_list [] page_without_boots ! 3))"
    by code_simp
  have n3: "\<forall>e\<in>set (take 3 (descendants_list [] page_without_boots)).
           \<not> header_matches ''Core Builds'' (snd e)" by code_simp
  have p3: "find_parent (named ''table'') (descendants_list [] page_without_boots ! 3)
       = Some ([], hd page_without_boots)" by code_simp
  have b3: "find_tag (named ''tbody'') ([], hd page_without_boots)
       = Some ([hd page_without_boots], Tag ''tbody'' [] [] [full_row, short_row, bare_row])"
    by code_simp
  have v3: "rows_loop (find_all (named ''tr'')
       ([hd page_without_boots], Tag ''tbody'' [] [] [full_row, short_row, bare_row])) []
       = Inr [full_build_row, bare_build_row]" by code_simp
  note c3 = extract_table_by_header_first_header
    [where sp = page_without_boots and h = "''Core Builds''", THEN conjunct2, THEN conjunct2, THEN conjunct1,
      THEN spec, THEN mp, OF conjI [OF l3 conjI [OF m3 n3]]]
  note r3 = c3 [THEN conjunct2, THEN spec, THEN mp, OF p3, THEN conjunct2, THEN spec, THEN mp, OF b3]
  from r3 v3 have r3': "extract_table_by_header page_without_boots ''Core Builds''
       = Inr [full_build_row, bare_build_row]" by simp
  from n0 have n0': "\<not> (\<exists>e\<in>set (descendants_list [] page_without_boots).
      header_matches ''Boots'' (snd e))" by blast
  from n1 have n1': "\<not> (\<exists>e\<in>set (take 1 (descendants_list [] page_two_headers)).
           header_matches ''Core Builds'' (snd e))" by blast
  from n2 have n2': "\<not> (\<exists>e\<in>set (take 2 (descendants_list [] page_no_tbody)).
           header_matches ''core builds'' (snd e))" by blast
  from n3 have n3': "\<not> (\<exists>e\<in>set (take 3 (descendants_list [] page_without_boots)).
           header_matches ''Core Builds'' (snd e))" by blast
  from n0' r0 m1 n1' p1 m1' r1 m2 n2' p2 b2 r2 m3 n3' p3 b3 r3' show ?thesis
    by (intro conjI)
qed

subsection \<open>Fetching\<close>

text \<open>
  C7: \<open>fetch_image_bytes\<close> requests \<open>https:\<close> followed by the URL when the URL starts
  with \<open>//\<close>, and the URL itself otherwise, with timeout 5. It returns the response's
  bytes exactly when the session returns a response with status 200; on any other
  status and on every exception the session raises it returns \<open>None\<close>: it has a value
  in every case, so no exception reaches the caller.
\<close>

theorem fetch_image_bytes_result:
  "(startswith url ''//'' \<longleftrightarrow> (\<exists>rest. url = ''//'' @ rest))
   \<and> (startswith url ''//'' \<longrightarrow>
        fetch_image_bytes get w url = fetch_image_bytes get w (''https:'' @ url))
   \<and> (\<not> startswith url ''//'' \<longrightarrow>
        (\<forall>e w'. get w url 5 = (Inl e, w') \<longrightarrow> fetch_image_bytes get w url = (None, w')) \<and>
        (\<forall>resp w'. get w url 5 = (Inr resp, w') \<longrightarrow>
           (status_code resp = 200 \<longrightarrow> fetch_image_bytes get w url = (Some (content resp), w')) \<and>
           (status_code resp \<noteq> 200 \<longrightarrow> fetch_image_bytes get w url = (None, w'))))
   \<and> (\<forall>c. fst (fetch_image_bytes get w url) = Some c \<longleftrightarrow>
        (\<exists>resp w'. get w (if startswith url ''//'' then ''https:'' @ url else url) 5 = (Inr resp, w')
           \<and> status_code resp = 200 \<and> content resp = c))"
  (is "?A \<and> ?B \<and> ?C \<and> ?D")
proof -
  have a: ?A by (simp add: startswith_iff)
  have b: ?B by (simp add: fetch_image_bytes_def)
  have c: ?C by (simp add: fetch_image_bytes_def)
  have d: ?D
  proof (intro allI)
    fix c
    obtain r w' where g: "get w (if startswith url ''//'' then ''https:'' @ url else url) 5 = (r, w')"
      by (cases "get w (if startswith url ''//'' then ''https:'' @ url else url) 5")
    show "fst (fetch_image_bytes get w url) = Some c \<longleftrightarrow>
        (\<exists>resp w'. get w (if startswith url ''//'' then ''https:'' @ url else url) 5 = (Inr resp, w')
           \<and> status_code resp = 200 \<and> content resp = c)"
    proof (cases r)
      case (Inl e)
      with g show ?thesis by (simp add: fetch_image_bytes_def Let_def)
    next
      case (Inr resp)
      with g show ?thesis by (auto simp: fetch_image_bytes_def Let_def)
    qed
  qed
  from a b c d show ?thesis by (intro conjI)
qed

theorem fetch_image_bytes_result_witness:
  "startswith ''//cdn/boots.png'' ''//''
   \<and> fetch_image_bytes (status_session 200) 0 ''//cdn/boots.png''
       = fetch_image_bytes (status_session 200) 0 ''https://cdn/boots.png''
   \<and> \<not> startswith ''https://cdn/boots.png'' ''//''
   \<and> status_session 200 0 ''https://cdn/boots.png'' 5
       = (Inr \<lparr>status_code = 200, text_soup = [], content = ''https://cdn/boots.png''\<rparr>, 1)
   \<and> fetch_image_bytes (status_session 200) 0 ''https://cdn/boots.png''
       = (Some ''https://cdn/boots.png'', 1)
   \<and> status_session 404 0 ''https://cdn/boots.png'' 5
       = (Inr \<lparr>status_code = 404, text_soup = [], content = ''https://cdn/boots.png''\<rparr>, 1)
   \<and> fetch_image_bytes (status_session 404) 0 ''https://cdn/boots.png'' = (None, 1)
   \<and> failing_session OtherException 0 ''https://cdn/boots.png'' 5 = (Inl OtherException, 1)
   \<and> fetch_image_bytes (failing_session OtherException) 0 ''https://cdn/boots.png'' = (None, 1)"
proof -
  let ?u = "''https://cdn/boots.png''"
  have s1: "startswith ''//cdn/boots.png'' ''//''" by simp
  have s2: "\<not> startswith ?u ''//''" by simp
  have ap: "''https:'' @ ''//cdn/boots.png'' = ?u" by simp
  have g200: "status_session 200 0 ?u 5
       = (Inr \<lparr>status_code = 200, text_soup = [], content = ?u\<rparr>, 1)"
    by (simp add: status_session_def)
  have g404: "status_session 404 0 ?u 5
       = (Inr \<lparr>status_code = 404, text_soup = [], content = ?u\<rparr>, 1)"
    by (simp add: status_session_def)
  have gf: "failing_session OtherException 0 ?u 5 = (Inl OtherException, 1)"
    by (simp add: failing_session_def)
  have r1: "fetch_image_bytes (status_session 200) 0 ''//cdn/boots.png''
       = fetch_image_bytes (status_session 200) 0 ?u"
    using fetch_image_bytes_result [of "''//cdn/boots.png''" "status_session 200" 0,
        THEN conjunct2, THEN conjunct1, THEN mp, OF s1]
    by (simp only: ap)
  note c200 = fetch_image_bytes_result [of ?u "status_session 200" 0,
        THEN conjunct2, THEN conjunct2, THEN conjunct1, THEN mp, OF s2]
  from c200 [THEN conjunct2, THEN spec, THEN spec, THEN mp, OF g200, THEN conjunct1]
  have r2: "fetch_image_bytes (status_session 200) 0 ?u = (Some ?u, 1)" by simp
  note c404 = fetch_image_bytes_result [of ?u "status_session 404" 0,
        THEN conjunct2, THEN conjunct2, THEN conjunct1, THEN mp, OF s2]
  from c404 [THEN conjunct2, THEN spec, THEN spec, THEN mp, OF g404, THEN conjunct2]
  have r3: "fetch_image_bytes (status_session 404) 0 ?u = (None, 1)" by simp
  note cf = fetch_image_bytes_result [of ?u "failing_session OtherException" 0,
        THEN conjunct2, THEN conjunct2, THEN conjunct1, THEN mp, OF s2]
  note r4 = cf [THEN conjunct1, THEN spec, THEN spec, THEN mp, OF gf]
  from s1 r1 s2 g200 r2 g404 r3 gf r4 show ?thesis by (intro conjI)
qed

subsection \<open>The worker and a page that is not there\<close>

text \<open>
  C1: the claim is that a 404 answer to the page request ends in the "not found"
  callback. In the code \<open>fetch_page\<close> returns \<open>None\<close> for a 404, the same value it
  returns for a \<open>RequestException\<close>, and \<open>_worker_thread\<close> schedules \<open>_handle_error\<close>
  ("Connection Error") for \<open>None\<close>: for every session, a 404 response and a failed
  request end in the same callback, \<open>_handle_error\<close>.
\<close>

theorem worker_thread_404_handle_error:
  "(\<forall>resp w'. get w url 10 = (Inr resp, w') \<and> status_code resp = 404 \<longrightarrow>
      fetch_page get w url = (Inr None, w') \<and>
      worker_thread get w url = (Inr handle_error, w'))
   \<and> (\<forall>w'. get w url 10 = (Inl RequestException, w') \<longrightarrow>
      fetch_page get w url = (Inr None, w') \<and>
      worker_thread get w url = (Inr handle_error, w'))"
  by (simp add: worker_thread_def fetch_page_def fetch_page_try_def)

theorem worker_thread_404_handle_error_witness:
  "status_session 404 0 ''https://op.gg/lol/modes/aram/velkoz/build'' 10
     = (Inr \<lparr>status_code = 404, text_soup = [],
             content = ''https://op.gg/lol/modes/aram/velkoz/build''\<rparr>, 1)
   \<and> worker_thread (status_session 404) 0 ''https://op.gg/lol/modes/aram/velkoz/build''
     = (Inr handle_error, 1)
   \<and> failing_session RequestException 0 ''https://op.gg/lol/modes/aram/velkoz/build'' 10
     = (Inl RequestException, 1)
   \<and> worker_thread (failing_session RequestException) 0
        ''https://op.gg/lol/modes/aram/velkoz/build''
     = (Inr handle_error, 1)"
proof -
  let ?u = "''https://op.gg/lol/modes/aram/velkoz/build''"
  have g: "status_session 404 0 ?u 10
     = (Inr \<lparr>status_code = 404, text_soup = [], content = ?u\<rparr>, 1)"
    by (simp add: status_session_def)
  have st: "status_code \<lparr>status_code = 404, text_soup = [], content = ?u\<rparr> = 404" by simp
  have f: "failing_session RequestException 0 ?u 10 = (Inl RequestException, 1)"
    by (simp add: failing_session_def)
  note a = worker_thread_404_handle_error [of "status_session 404" 0 ?u, THEN conjunct1,
      THEN spec, THEN spec, THEN mp, OF conjI [OF g st], THEN conjunct2]
  note b = worker_thread_404_handle_error [of "failing_session RequestException" 0 ?u,
      THEN conjunct2, THEN spec, THEN mp, OF f, THEN conjunct2]
  from g a f b show ?thesis by (intro conjI)
qed

subsection \<open>Repeated extraction\<close>

lemma extract_item_details_obj_eq:
  "extract_item_details_obj img s =
     (Inr (length (heap s)),
      s\<lparr>heap := heap s @ [GameItemObj (projr (extract_item_details img))]\<rparr>)"
proof -
  obtain item where "extract_item_details img = Inr item"
    using extract_item_details_total by blast
  then show ?thesis
    by (auto simp: extract_item_details_obj_def extract_item_details_def alloc_def Let_def
        split: sum.splits)
qed

lemma items_list_obj_eq:
  "items_list_obj imgs s =
     (Inr [length (heap s) ..< length (heap s) + length (filter has_src imgs)],
      s\<lparr>heap := heap s @ map (\<lambda>x. GameItemObj (projr (extract_item_details x)))
                              (filter has_src imgs)\<rparr>)"
proof (induction imgs arbitrary: s)
  case Nil
  then show ?case by simp
next
  case (Cons img imgs)
  show ?case
  proof (cases "has_src img")
    case False
    then show ?thesis by (simp add: Cons.IH)
  next
    case True
    have u: "n # [Suc n ..< Suc (n + k)] = [n ..< Suc (n + k)]" for n k :: nat
      by (simp add: upt_conv_Cons del: upt_Suc)
    from True show ?thesis
      by (simp add: extract_item_details_obj_eq Cons.IH u del: upt_Suc)
  qed
qed

lemma row_body_obj_short:
  "length (find_all (named ''td'') row) < 3 \<Longrightarrow> row_body_obj row s = (Inr None, s)"
  by (simp add: row_body_obj_def Let_def)

lemma row_body_obj_long:
  assumes "3 \<le> length (find_all (named ''td'') row)"
  shows "row_body_obj row s =
     (Inr (Some (length (heap s)
           + length (filter has_src (find_all (named ''img'') (find_all (named ''td'') row ! 0))))),
      s\<lparr>heap := heap s
          @ map (\<lambda>x. GameItemObj (projr (extract_item_details x)))
              (filter has_src (find_all (named ''img'') (find_all (named ''td'') row ! 0)))
          @ [BuildRowObj
               [length (heap s) ..< length (heap s)
                  + length (filter has_src (find_all (named ''img'') (find_all (named ''td'') row ! 0)))]
               (text_or_na ''strong'' (find_all (named ''td'') row ! 2))
               (text_or_na ''strong'' (find_all (named ''td'') row ! 1))
               (text_or_na ''span'' (find_all (named ''td'') row ! 1))]\<rparr>)"
proof -
  from assms have "find_all (named ''td'') row \<noteq> []" "\<not> length (find_all (named ''td'') row) < 3"
    by auto
  then show ?thesis by (simp add: row_body_obj_def Let_def items_list_obj_eq alloc_def)
qed

lemma item_at_append:
  "item_at s a = Some x \<Longrightarrow> heap s' = heap s @ ext \<Longrightarrow> item_at s' a = Some x"
  by (auto simp: item_at_def nth_append split: if_splits)

lemma row_at_append:
  assumes "row_at s a = Some b" and "heap s' = heap s @ ext"
  shows "row_at s' a = Some b"
proof -
  from assms(1) obtain its w p g where
    a: "a < length (heap s)" and o: "heap s ! a = BuildRowObj its w p g" and
    al: "list_all (\<lambda>i. item_at s i \<noteq> None) its" and
    b: "b = \<lparr>items = map (\<lambda>i. the (item_at s i)) its, win_rate = w, pick_rate = p, games = g\<rparr>"
    by (auto simp: row_at_def split: if_splits obj.splits)
  have same: "item_at s' i = item_at s i" if "i \<in> set its" for i
  proof -
    from al that obtain x where "item_at s i = Some x" by (auto simp: list_all_iff)
    with item_at_append [OF this assms(2)] show ?thesis by simp
  qed
  then have "list_all (\<lambda>i. item_at s' i \<noteq> None) its" using al by (simp add: list_all_iff)
  moreover from same have "map (\<lambda>i. the (item_at s' i)) its = map (\<lambda>i. the (item_at s i)) its"
    by simp
  moreover from a o assms(2) have "a < length (heap s')" "heap s' ! a = BuildRowObj its w p g"
    by (simp_all add: nth_append)
  ultimately show ?thesis by (simp add: row_at_def b)
qed

lemma row_at_new:
  assumes "heap s' = hp @ map GameItemObj its @ [BuildRowObj [length hp ..< length hp + length its] w p g]"
  shows "row_at s' (length hp + length its)
           = Some \<lparr>items = its, win_rate = w, pick_rate = p, games = g\<rparr>"
proof -
  have it: "item_at s' (length hp + i) = Some (its ! i)" if "i < length its" for i
    using that by (simp add: item_at_def assms nth_append)
  have al: "list_all (\<lambda>i. item_at s' i \<noteq> None) [length hp ..< length hp + length its]"
  proof (simp only: list_all_iff, intro ballI)
    fix j
    assume "j \<in> set [length hp ..< length hp + length its]"
    then obtain i where "j = length hp + i" "i < length its"
      by (auto simp: le_iff_add)
    with it show "item_at s' j \<noteq> None" by simp
  qed
  have mp: "map (\<lambda>i. the (item_at s' i)) [length hp ..< length hp + length its] = its"
    by (rule nth_equalityI) (simp_all add: it)
  have "heap s' ! (length hp + length its)
          = BuildRowObj [length hp ..< length hp + length its] w p g"
    by (simp add: assms nth_append)
  moreover have "length hp + length its < length (heap s')" by (simp add: assms)
  ultimately show ?thesis using al mp by (simp add: row_at_def)
qed

lemma row_body_obj_spec:
  "\<exists>oa s1. row_body_obj r s = (Inr oa, s1) \<and> document s1 = document s \<and>
     (\<exists>ext. heap s1 = heap s @ ext) \<and>
     (case oa of
        None \<Rightarrow> row_body r = Inr None \<and> s1 = s
      | Some a \<Rightarrow> length (heap s) \<le> a \<and> a < length (heap s1) \<and>
          (\<exists>b. row_body r = Inr (Some b) \<and> row_at s1 a = Some b))"
proof (cases "length (find_all (named ''td'') r) < 3")
  case True
  then show ?thesis by (simp add: row_body_obj_short row_body_short)
next
  case False
  then have l: "3 \<le> length (find_all (named ''td'') r)" by simp
  let ?imgs = "filter has_src (find_all (named ''img'') (find_all (named ''td'') r ! 0))"
  let ?its = "map (\<lambda>x. projr (extract_item_details x)) ?imgs"
  let ?w = "text_or_na ''strong'' (find_all (named ''td'') r ! 2)"
  let ?p = "text_or_na ''strong'' (find_all (named ''td'') r ! 1)"
  let ?g = "text_or_na ''span'' (find_all (named ''td'') r ! 1)"
  let ?s1 = "s\<lparr>heap := heap s @ map GameItemObj ?its
                 @ [BuildRowObj [length (heap s) ..< length (heap s) + length ?its] ?w ?p ?g]\<rparr>"
  have o: "row_body_obj r s = (Inr (Some (length (heap s) + length ?its)), ?s1)"
    by (simp add: row_body_obj_long [OF l] comp_def)
  have v: "row_at ?s1 (length (heap s) + length ?its)
             = Some \<lparr>items = ?its, win_rate = ?w, pick_rate = ?p, games = ?g\<rparr>"
    by (rule row_at_new) simp
  have b: "row_body r = Inr (Some \<lparr>items = ?its, win_rate = ?w, pick_rate = ?p, games = ?g\<rparr>)"
    by (rule row_body_long [OF l])
  have e: "\<exists>b'. row_body r = Inr (Some b') \<and> row_at ?s1 (length (heap s) + length ?its) = Some b'"
    by (rule exI, rule conjI [OF b v])
  have c: "case Some (length (heap s) + length ?its) of
        None \<Rightarrow> row_body r = Inr None \<and> ?s1 = s
      | Some a \<Rightarrow> length (heap s) \<le> a \<and> a < length (heap ?s1) \<and>
          (\<exists>b. row_body r = Inr (Some b) \<and> row_at ?s1 a = Some b)"
    using e by simp
  have d: "document ?s1 = document s" by simp
  have x: "\<exists>ext. heap ?s1 = heap s @ ext" by simp
  from o d x c show ?thesis
    by (intro exI [of _ "Some (length (heap s) + length ?its)"] exI [of _ ?s1] conjI)
qed

lemma rows_loop_obj_spec:
  "\<exists>as s'. rows_loop_obj rows data s = (Inr (data @ as), s') \<and> document s' = document s \<and>
     (\<exists>ext. heap s' = heap s @ ext) \<and>
     (\<forall>a\<in>set as. length (heap s) \<le> a \<and> a < length (heap s')) \<and>
     map (row_at s') as =
       map Some (List.map_filter (\<lambda>r. case row_body r of Inr ob \<Rightarrow> ob | Inl e \<Rightarrow> None) rows)"
proof (induction rows arbitrary: data s)
  case Nil
  show ?case by (intro exI [of _ "[]"] exI [of _ s]) simp
next
  case (Cons r rows)
  from row_body_obj_spec [of r s] obtain oa s1 ext1 where
    o: "row_body_obj r s = (Inr oa, s1)" and d1: "document s1 = document s" and
    h1: "heap s1 = heap s @ ext1" and
    c: "case oa of None \<Rightarrow> row_body r = Inr None \<and> s1 = s
        | Some a \<Rightarrow> length (heap s) \<le> a \<and> a < length (heap s1) \<and>
            (\<exists>b. row_body r = Inr (Some b) \<and> row_at s1 a = Some b)"
    by blast
  show ?case
  proof (cases oa)
    case None
    with c have rb: "row_body r = Inr None" and eq: "s1 = s" by simp_all
    from Cons.IH [of data s] obtain as s' where
      "rows_loop_obj rows data s = (Inr (data @ as), s')" "document s' = document s"
      "\<exists>ext. heap s' = heap s @ ext"
      "\<forall>a\<in>set as. length (heap s) \<le> a \<and> a < length (heap s')"
      "map (row_at s') as =
         map Some (List.map_filter (\<lambda>r. case row_body r of Inr ob \<Rightarrow> ob | Inl e \<Rightarrow> None) rows)"
      by blast
    with o None eq rb show ?thesis
      by (intro exI [of _ as] exI [of _ s']) simp
  next
    case (Some a)
    with c obtain b where la: "length (heap s) \<le> a" and ua: "a < length (heap s1)"
      and rb: "row_body r = Inr (Some b)" and va: "row_at s1 a = Some b"
      by auto
    from Cons.IH [of "data @ [a]" s1] obtain as s' ext where
      run: "rows_loop_obj rows (data @ [a]) s1 = (Inr ((data @ [a]) @ as), s')" and
      d: "document s' = document s1" and h: "heap s' = heap s1 @ ext" and
      bd: "\<forall>a\<in>set as. length (heap s1) \<le> a \<and> a < length (heap s')" and
      vs: "map (row_at s') as =
         map Some (List.map_filter (\<lambda>r. case row_body r of Inr ob \<Rightarrow> ob | Inl e \<Rightarrow> None) rows)"
      by blast
    from va h have va': "row_at s' a = Some b" by (rule row_at_append)
    have 1: "rows_loop_obj (r # rows) data s = (Inr (data @ (a # as)), s')"
      using o Some run by simp
    have 2: "document s' = document s" using d d1 by simp
    have 3: "\<exists>ext. heap s' = heap s @ ext" using h h1 by simp
    have 4: "\<forall>x\<in>set (a # as). length (heap s) \<le> x \<and> x < length (heap s')"
      using la ua bd h h1 by auto
    have 5: "map (row_at s') (a # as) =
       map Some (List.map_filter (\<lambda>r. case row_body r of Inr ob \<Rightarrow> ob | Inl e \<Rightarrow> None) (r # rows))"
      using va' vs rb by simp
    from 1 2 3 4 5 show ?thesis
      by (intro exI [of _ "a # as"] exI [of _ s'] conjI)
  qed
qed

lemma extract_table_by_header_obj_spec:
  "\<exists>as s' rows. extract_table_by_header_obj h s = (Inr as, s') \<and> document s' = document s \<and>
     (\<exists>ext. heap s' = heap s @ ext) \<and>
     (\<forall>a\<in>set as. length (heap s) \<le> a \<and> a < length (heap s')) \<and>
     extract_table_by_header (document s) h = Inr rows \<and>
     map (row_at s') as = map Some rows"
proof -
  have trivial: ?thesis
    if "extract_table_by_header_obj h s = (Inr [], s)"
      and "extract_table_by_header (document s) h = Inr []"
    using that by (intro exI [of _ "[]"] exI [of _ s]) simp
  show ?thesis
  proof (cases "soup_find (header_matches h) (document s)")
    case None
    then show ?thesis
      by (intro trivial) (simp_all add: extract_table_by_header_obj_def extract_table_by_header_def)
  next
    case (Some header)
    note hd = this
    show ?thesis
    proof (cases "find_parent (named ''table'') header")
      case None
      with hd show ?thesis
        by (intro trivial) (simp_all add: extract_table_by_header_obj_def extract_table_by_header_def)
    next
      case (Some table)
      note tb = this
      show ?thesis
      proof (cases "find_tag (named ''tbody'') table")
        case None
        with hd tb show ?thesis
          by (intro trivial)
            (simp_all add: extract_table_by_header_obj_def extract_table_by_header_def)
      next
        case (Some tbody)
        let ?rows = "find_all (named ''tr'') tbody"
        from hd tb Some have o: "extract_table_by_header_obj h s = rows_loop_obj ?rows [] s"
          by (simp add: extract_table_by_header_obj_def)
        from hd tb Some have p: "extract_table_by_header (document s) h
            = Inr (List.map_filter (\<lambda>r. case row_body r of Inr ob \<Rightarrow> ob | Inl e \<Rightarrow> None) ?rows)"
          by (simp add: extract_table_by_header_def rows_loop_eq)
        from rows_loop_obj_spec [of ?rows "[]" s] obtain as s' where
          "rows_loop_obj ?rows [] s = (Inr as, s')" "document s' = document s"
          "\<exists>ext. heap s' = heap s @ ext"
          "\<forall>a\<in>set as. length (heap s) \<le> a \<and> a < length (heap s')"
          "map (row_at s') as =
             map Some (List.map_filter (\<lambda>r. case row_body r of Inr ob \<Rightarrow> ob | Inl e \<Rightarrow> None) ?rows)"
          by auto
        with o p show ?thesis
          by (intro exI [of _ as] exI [of _ s']
              exI [of _ "List.map_filter (\<lambda>r. case row_body r of Inr ob \<Rightarrow> ob | Inl e \<Rightarrow> None) ?rows"])
            simp
      qed
    qed
  qed
qed

text \<open>
  C9: two calls of \<open>_extract_table_by_header\<close> in a row, on the same document with the
  same header text. Both return (nothing is raised). Neither changes the document, and
  neither changes an object that was there before it: each only adds the objects it
  makes. The two calls return different objects, and the rows read from the objects of
  the first call (after it, and still after the second call) and the rows read from
  the objects of the second call are the same list of values, the one that the
  extractor gives as a function of the document and the header text.
\<close>

theorem extract_table_by_header_twice:
  "\<exists>as1 s1 as2 s2 rows.
     extract_table_by_header_obj h s = (Inr as1, s1) \<and>
     extract_table_by_header_obj h s1 = (Inr as2, s2) \<and>
     document s1 = document s \<and> document s2 = document s \<and>
     (\<exists>ext1 ext2. heap s1 = heap s @ ext1 \<and> heap s2 = heap s1 @ ext2) \<and>
     extract_table_by_header (document s) h = Inr rows \<and>
     map (row_at s1) as1 = map Some rows \<and>
     map (row_at s2) as1 = map Some rows \<and>
     map (row_at s2) as2 = map Some rows \<and>
     set as1 \<inter> set as2 = {}"
proof -
  from extract_table_by_header_obj_spec [of h s] obtain as1 s1 rows ext1 where
    r1: "extract_table_by_header_obj h s = (Inr as1, s1)" and d1: "document s1 = document s" and
    h1: "heap s1 = heap s @ ext1" and
    b1: "\<forall>a\<in>set as1. length (heap s) \<le> a \<and> a < length (heap s1)" and
    p: "extract_table_by_header (document s) h = Inr rows" and
    v1: "map (row_at s1) as1 = map Some rows"
    by blast
  from extract_table_by_header_obj_spec [of h s1] obtain as2 s2 rows' ext2 where
    r2: "extract_table_by_header_obj h s1 = (Inr as2, s2)" and d2: "document s2 = document s1" and
    h2: "heap s2 = heap s1 @ ext2" and
    b2: "\<forall>a\<in>set as2. length (heap s1) \<le> a \<and> a < length (heap s2)" and
    p': "extract_table_by_header (document s1) h = Inr rows'" and
    v2': "map (row_at s2) as2 = map Some rows'"
    by blast
  from p p' d1 have "rows' = rows" by simp
  with v2' have v2: "map (row_at s2) as2 = map Some rows" by simp
  have "row_at s2 a = row_at s1 a" if "a \<in> set as1" for a
  proof -
    from v1 that obtain b where "row_at s1 a = Some b"
      by (metis (no_types, lifting) imageE image_eqI list.set_map)
    with row_at_append [OF this h2] show ?thesis by simp
  qed
  then have "map (row_at s2) as1 = map (row_at s1) as1" by simp
  with v1 have v12: "map (row_at s2) as1 = map Some rows" by simp
  from b1 b2 have dj: "set as1 \<inter> set as2 = {}" by fastforce
  from d1 d2 have d2': "document s2 = document s" by simp
  from h1 h2 have hh: "\<exists>ext1 ext2. heap s1 = heap s @ ext1 \<and> heap s2 = heap s1 @ ext2" by blast
  from r1 r2 d1 d2' hh p v1 v12 v2 dj show ?thesis
    by (intro exI [of _ as1] exI [of _ s1] exI [of _ as2] exI [of _ s2] exI [of _ rows] conjI)
qed

theorem extract_table_by_header_twice_witness:
  "fst (extract_table_by_header_obj ''Core Builds'' fresh_store) = Inr [1, 3]
   \<and> fst (extract_table_by_header_obj ''Core Builds''
           (snd (extract_table_by_header_obj ''Core Builds'' fresh_store))) = Inr [5, 7]
   \<and> map (row_at (snd (extract_table_by_header_obj ''Core Builds''
                     (snd (extract_table_by_header_obj ''Core Builds'' fresh_store))))) [1, 3]
       = [Some full_build_row, Some bare_build_row]
   \<and> map (row_at (snd (extract_table_by_header_obj ''Core Builds''
                     (snd (extract_table_by_header_obj ''Core Builds'' fresh_store))))) [5, 7]
       = [Some full_build_row, Some bare_build_row]
   \<and> document (snd (extract_table_by_header_obj ''Core Builds''
                     (snd (extract_table_by_header_obj ''Core Builds'' fresh_store))))
       = page_core_only"
proof -
  let ?h = "''Core Builds''"
  have e1: "fst (extract_table_by_header_obj ?h fresh_store) = Inr [1, 3]" by code_simp
  have e2: "fst (extract_table_by_header_obj ?h (snd (extract_table_by_header_obj ?h fresh_store)))
      = Inr [5, 7]" by code_simp
  have e: "extract_table_by_header page_core_only ?h = Inr [full_build_row, bare_build_row]"
    by code_simp
  have dc: "document fresh_store = page_core_only" by (simp add: fresh_store_def)
  from extract_table_by_header_twice [of ?h fresh_store] obtain as1 s1 as2 s2 rows where
    r1: "extract_table_by_header_obj ?h fresh_store = (Inr as1, s1)" and
    r2: "extract_table_by_header_obj ?h s1 = (Inr as2, s2)" and
    d2: "document s2 = document fresh_store" and
    p: "extract_table_by_header (document fresh_store) ?h = Inr rows" and
    v1: "map (row_at s2) as1 = map Some rows" and
    v2: "map (row_at s2) as2 = map Some rows"
    by blast
  from r1 have s1: "s1 = snd (extract_table_by_header_obj ?h fresh_store)" by simp
  from r1 e1 have a1: "as1 = [1, 3]" by simp
  from r2 s1 have s2: "s2 = snd (extract_table_by_header_obj ?h
      (snd (extract_table_by_header_obj ?h fresh_store)))" by simp
  from r2 e2 s1 have a2: "as2 = [5, 7]" by simp
  from p e dc have rw: "rows = [full_build_row, bare_build_row]" by simp
  from v1 a1 rw s2 have c1: "map (row_at (snd (extract_table_by_header_obj ?h
      (snd (extract_table_by_header_obj ?h fresh_store))))) [1, 3]
       = [Some full_build_row, Some bare_build_row]" by simp
  from v2 a2 rw s2 have c2: "map (row_at (snd (extract_table_by_header_obj ?h
      (snd (extract_table_by_header_obj ?h fresh_store))))) [5, 7]
       = [Some full_build_row, Some bare_build_row]" by simp
  from d2 dc s2 have c3: "document (snd (extract_table_by_header_obj ?h
      (snd (extract_table_by_header_obj ?h fresh_store)))) = page_core_only" by simp
  from e1 e2 c1 c2 c3 show ?thesis by (intro conjI)
qed

end
